theory Spec2Isabelle
  imports Main "HOL-Library.AList"
begin

section \<open>Positions\<close>

text \<open>
  A position is a root together with a path of child offsets (\<open>{ root, path }\<close>). The
  class \<open>Position\<close> (\<open>src/model/position.js\<close>) is imported by \<open>range.js\<close> but is not
  among the source files; what \<open>Range\<close> calls of it is modelled from the specification.
  Roots are identified by their names. The path of a position is never empty.
\<close>

record position =
  root :: string
  path :: "nat list"

datatype position_relation = Same | Before | After | Different

text \<open>
  Modelled from the spec: the comparison of two paths that \<open>Position.compareWith\<close> rests
  on is missing from the sources. The specification defines the comparisons of positions
  by "lexicographic-with-common-prefix path comparison": the first offset that differs
  decides, and a path that is a proper prefix of the other one is before it.
\<close>

fun comparePaths :: "nat list \<Rightarrow> nat list \<Rightarrow> position_relation" where
  "comparePaths [] [] = Same"
| "comparePaths [] (b # bs) = Before"
| "comparePaths (a # as) [] = After"
| "comparePaths (a # as) (b # bs) =
     (if a < b then Before else if b < a then After else comparePaths as bs)"

text \<open>
  Modelled from the spec: \<open>Position.compareWith\<close> is missing from the sources. Positions
  of two different roots are not comparable; positions of one root compare as their
  paths do.
\<close>

definition Position_compareWith :: "position \<Rightarrow> position \<Rightarrow> position_relation" where
  "Position_compareWith p q =
     (if root p \<noteq> root q then Different else comparePaths (path p) (path q))"

text \<open>
  Modelled from the spec: \<open>Position.isBefore\<close>, missing from the sources; the
  comparison is strict.
\<close>

definition Position_isBefore :: "position \<Rightarrow> position \<Rightarrow> bool" where
  "Position_isBefore p q = (Position_compareWith p q = Before)"

text \<open>
  Modelled from the spec: \<open>Position.isAfter\<close>, missing from the sources; the
  comparison is strict.
\<close>

definition Position_isAfter :: "position \<Rightarrow> position \<Rightarrow> bool" where
  "Position_isAfter p q = (Position_compareWith p q = After)"

text \<open>
  Modelled from the spec: \<open>Position.isEqual\<close>, missing from the sources: the same root
  and the same path.
\<close>

definition Position_isEqual :: "position \<Rightarrow> position \<Rightarrow> bool" where
  "Position_isEqual p q = (Position_compareWith p q = Same)"

text \<open>
  Modelled from the spec: the constructor \<open>new Position( root, path )\<close> is missing from
  the sources; a position is the pair of its root and its path.
\<close>

definition new_Position :: "string \<Rightarrow> nat list \<Rightarrow> position" where
  "new_Position r p = \<lparr>root = r, path = p\<rparr>"

text \<open>
  Modelled from the spec: \<open>Position.createFromPosition\<close> is missing from the sources. It
  returns a new position with the same root and a copy of the path; in this value model
  of positions the copy is the value itself, field by field.
\<close>

definition Position_createFromPosition :: "position \<Rightarrow> position" where
  "Position_createFromPosition p = \<lparr>root = root p, path = path p\<rparr>"

section \<open>Ranges\<close>

text \<open>
  \<open>class Range\<close> of \<open>src/model/range.js\<close>: the fields \<open>start\<close> and \<open>end\<close>. The
  constructor does not order its two arguments.
\<close>

record model_range =
  range_start :: position
  range_end :: position

text \<open>
  \<open>constructor( start, end = null )\<close>: both boundaries are copies made by
  \<open>Position.createFromPosition\<close>; when \<open>end\<close> is not given the end is a copy of
  \<open>start\<close>.
\<close>

definition new_Range :: "position \<Rightarrow> position option \<Rightarrow> model_range" where
  "new_Range start end_arg =
     \<lparr>range_start = Position_createFromPosition start,
      range_end = (case end_arg of
                     Some e \<Rightarrow> Position_createFromPosition e
                   | None \<Rightarrow> Position_createFromPosition start)\<rparr>"

definition Range_isCollapsed :: "model_range \<Rightarrow> bool" where
  "Range_isCollapsed r = Position_isEqual (range_start r) (range_end r)"

definition Range_root :: "model_range \<Rightarrow> string" where
  "Range_root r = root (range_start r)"

definition Range_containsPosition :: "model_range \<Rightarrow> position \<Rightarrow> bool" where
  "Range_containsPosition r p =
     (Position_isAfter p (range_start r) \<and> Position_isBefore p (range_end r))"

definition Range_containsRange :: "model_range \<Rightarrow> model_range \<Rightarrow> bool" where
  "Range_containsRange r otherRange =
     (Range_containsPosition r (range_start otherRange) \<and>
      Range_containsPosition r (range_end otherRange))"

definition Range_isEqual :: "model_range \<Rightarrow> model_range \<Rightarrow> bool" where
  "Range_isEqual r otherRange =
     (Position_isEqual (range_start r) (range_start otherRange) \<and>
      Position_isEqual (range_end r) (range_end otherRange))"

definition Range_isIntersecting :: "model_range \<Rightarrow> model_range \<Rightarrow> bool" where
  "Range_isIntersecting r otherRange =
     (Position_isBefore (range_start r) (range_end otherRange) \<and>
      Position_isAfter (range_end r) (range_start otherRange))"

definition Range_createFromRange :: "model_range \<Rightarrow> model_range" where
  "Range_createFromRange r = new_Range (range_start r) (Some (range_end r))"

text \<open>
  \<open>getDifference( otherRange )\<close>: the array \<open>ranges\<close> in the order of the two
  \<open>push\<close> calls.
\<close>

definition Range_getDifference :: "model_range \<Rightarrow> model_range \<Rightarrow> model_range list" where
  "Range_getDifference r otherRange =
     (if Range_isIntersecting r otherRange then
        (if Range_containsPosition r (range_start otherRange)
         then [new_Range (range_start r) (Some (range_start otherRange))] else []) @
        (if Range_containsPosition r (range_end otherRange)
         then [new_Range (range_end otherRange) (Some (range_end r))] else [])
      else [Range_createFromRange r])"

text \<open>\<open>getIntersection( otherRange )\<close>: \<open>None\<close> is the \<open>null\<close> of the source.\<close>

definition Range_getIntersection :: "model_range \<Rightarrow> model_range \<Rightarrow> model_range option" where
  "Range_getIntersection r otherRange =
     (if Range_isIntersecting r otherRange then
        (let commonRangeStart =
               (if Range_containsPosition r (range_start otherRange)
                then range_start otherRange else range_start r);
             commonRangeEnd =
               (if Range_containsPosition r (range_end otherRange)
                then range_end otherRange else range_end r)
         in Some (new_Range commonRangeStart (Some commonRangeEnd)))
      else None)"

text \<open>
  Errors as values: a \<open>CKEditorError\<close> is identified by the error name that starts its
  message; \<open>TypeError\<close> is what JavaScript throws when a property of \<open>undefined\<close> is
  read.
\<close>

datatype error = CKEditorError string | TypeError

text \<open>\<open>Array.prototype.indexOf\<close>: the first index of the element, \<open>-1\<close> when absent.\<close>

fun Array_indexOf :: "'a list \<Rightarrow> 'a \<Rightarrow> int" where
  "Array_indexOf [] x = -1"
| "Array_indexOf (y # ys) x =
     (if y = x then 0
      else (let i = Array_indexOf ys x in if i < 0 then -1 else i + 1))"

text \<open>
  The first loop of \<open>createFromRanges\<close>, over the ranges before the reference range:
  \<open>for ( let i = refIndex - 1; i >= 0; i++ )\<close>. The index goes up. When it reaches the
  length of the array, \<open>ranges[ i ]\<close> is \<open>undefined\<close> and reading its \<open>end\<close> throws a
  \<open>TypeError\<close>. \<open>Position.isTouching\<close> is not among the sources and depends on the
  document tree; it is the parameter \<open>isTouching\<close>.
\<close>

function glueBefore ::
  "(position \<Rightarrow> position \<Rightarrow> bool) \<Rightarrow> model_range list \<Rightarrow> int \<Rightarrow> model_range
     \<Rightarrow> error + model_range" where
  "glueBefore isTouching ranges i result =
     (if i \<ge> 0 then
        (if nat i < length ranges then
           (if isTouching (range_end (ranges ! nat i)) (range_start result)
            then glueBefore isTouching ranges (i + 1)
                   (result\<lparr>range_start :=
                      Position_createFromPosition (range_start (ranges ! nat i))\<rparr>)
            else Inr result)
         else Inl TypeError)
      else Inr result)"
  by pat_completeness auto
termination
  by (relation "measure (\<lambda>(isTouching, ranges, i, result). nat (int (length ranges) - i))")
    auto

declare glueBefore.simps [simp del]

text \<open>
  The second loop, over the ranges after the reference range:
  \<open>for ( let i = refIndex + 1; i < ranges.length; i++ )\<close>; \<open>refIndex + 1\<close> is never
  negative.
\<close>

function glueAfter ::
  "(position \<Rightarrow> position \<Rightarrow> bool) \<Rightarrow> model_range list \<Rightarrow> int \<Rightarrow> model_range
     \<Rightarrow> model_range" where
  "glueAfter isTouching ranges i result =
     (if 0 \<le> i \<and> i < int (length ranges) then
        (if isTouching (range_start (ranges ! nat i)) (range_end result)
         then glueAfter isTouching ranges (i + 1)
                (result\<lparr>range_end :=
                   Position_createFromPosition (range_end (ranges ! nat i))\<rparr>)
         else result)
      else result)"
  by pat_completeness auto
termination
  by (relation "measure (\<lambda>(isTouching, ranges, i, result). nat (int (length ranges) - i))")
    auto

declare glueAfter.simps [simp del]

text \<open>
  \<open>static createFromRanges( ranges )\<close>. The ranges are objects and \<open>indexOf\<close> finds the
  reference range by identity, so each range is paired with its index in the array that
  was passed: the reference range is the one with index \<open>0\<close>. The value is the range
  returned or the error thrown; that \<open>sort\<close> also reorders the caller's array is not part
  of the value.

  The ranges are sorted with \<open>ranges.sort( ( a, b ) => a.start.isAfter( b.start ) )\<close>.
  The comparator answers with a boolean, which \<open>Array.prototype.sort\<close> reads as the
  number \<open>1\<close> (\<open>a\<close> comes after \<open>b\<close>) or \<open>0\<close> (\<open>a\<close> and \<open>b\<close> are equal), never as a
  negative number. This is not a consistent comparison (\<open>a\<close> after \<open>b\<close> does not make
  \<open>b\<close> before \<open>a\<close>), and the language leaves the order that \<open>sort\<close> makes with it to
  the engine. The sort of the engine is therefore the parameter \<open>engineSort\<close>, given
  the
  comparator and the array. The merge sort of the current engines looks for runs of
  elements already in order; no element compares negative against the one before it, so
  the whole array is one run and is left as it was passed:
  \<open>engineSort = (\<lambda>comparefn array. array)\<close>.
\<close>

definition Range_createFromRanges ::
  "(((nat \<times> model_range) \<Rightarrow> (nat \<times> model_range) \<Rightarrow> bool) \<Rightarrow>
      (nat \<times> model_range) list \<Rightarrow> (nat \<times> model_range) list) \<Rightarrow>
   (position \<Rightarrow> position \<Rightarrow> bool) \<Rightarrow> model_range list \<Rightarrow> error + model_range" where
  "Range_createFromRanges engineSort isTouching ranges =
     (if length ranges = 0 then
        Inl (CKEditorError ''range-create-from-ranges-empty-array'')
      else if length ranges = 1 then Inr (Range_createFromRange (ranges ! 0))
      else
        (let ref = ranges ! 0;
             sorted = engineSort
               (\<lambda>a b. Position_isAfter (range_start (snd a)) (range_start (snd b)))
               (zip [0 ..< length ranges] ranges);
             refIndex = Array_indexOf (map fst sorted) 0;
             result = new_Range (range_start ref) (Some (range_end ref))
         in case glueBefore isTouching (map snd sorted) (refIndex - 1) result of
              Inl e \<Rightarrow> Inl e
            | Inr result' \<Rightarrow> Inr (glueAfter isTouching (map snd sorted) (refIndex + 1) result')))"

section \<open>Transformation of positions and ranges\<close>

text \<open>
  The transformers of \<open>Position\<close> that \<open>Range\<close> builds on (\<open>getShiftedBy\<close>,
  \<open>_getTransformedByInsertion\<close>, \<open>_getTransformedByDeletion\<close>, \<open>_getCombined\<close>,
  \<open>_getTransformedByMove\<close>) are missing from the sources and are modelled from the
  specification: given an edit (an insertion, a deletion or a move of \<open>howMany\<close> nodes at
  a position) they "recompute where this position now points"; "a position exactly at an
  insertion point moves forward only if a sticky/affinity flag says so"; "a position
  inside a deleted span collapses to the deletion point". An edit in another root leaves
  a position as it is; an edit among the children of the position's parent shifts the
  offset of the position; an edit among the children of an ancestor shifts the offset of
  the path that leads through that ancestor.
\<close>

text \<open>
  Modelled from the spec: the getter \<open>offset\<close> of \<open>Position\<close>, missing from the
  sources: the last offset of the path (the path is never empty).
\<close>

definition Position_offset :: "position \<Rightarrow> nat" where
  "Position_offset p = last (path p)"

text \<open>
  Modelled from the spec: \<open>Position.getParentPath\<close>, missing from the sources: the path
  without its last offset.
\<close>

definition Position_getParentPath :: "position \<Rightarrow> nat list" where
  "Position_getParentPath p = butlast (path p)"

text \<open>
  Modelled from the spec: \<open>Position.getShiftedBy\<close>, missing from the sources, "returns a
  new Position with the last path segment incremented by n". \<open>Range\<close> calls it with a
  number of nodes, never a negative shift.
\<close>

definition Position_getShiftedBy :: "position \<Rightarrow> nat \<Rightarrow> position" where
  "Position_getShiftedBy p shift =
     p\<lparr>path := Position_getParentPath p @ [Position_offset p + shift]\<rparr>"

text \<open>
  The path \<open>a\<close> of an element is a proper prefix of the path \<open>b\<close> of another one: the
  first element is an ancestor of the second.
\<close>

definition isAncestorPath :: "nat list \<Rightarrow> nat list \<Rightarrow> bool" where
  "isAncestorPath a b = (length a < length b \<and> take (length a) b = a)"

text \<open>
  Modelled from the spec: \<open>Position._getTransformedByInsertion( insertPosition, howMany,
  insertBefore )\<close>, missing from the sources. A position at the very place of the
  insertion moves forward only if \<open>insertBefore\<close> is set.
\<close>

definition Position_getTransformedByInsertion ::
  "position \<Rightarrow> position \<Rightarrow> nat \<Rightarrow> bool \<Rightarrow> position" where
  "Position_getTransformedByInsertion p insertPosition howMany insertBefore =
     (if root p \<noteq> root insertPosition then p
      else if Position_getParentPath insertPosition = Position_getParentPath p then
        (if Position_offset insertPosition < Position_offset p \<or>
            (Position_offset insertPosition = Position_offset p \<and> insertBefore)
         then p\<lparr>path := Position_getParentPath p @ [Position_offset p + howMany]\<rparr>
         else p)
      else if isAncestorPath (Position_getParentPath insertPosition)
                (Position_getParentPath p) then
        (let i = length (path insertPosition) - 1 in
           if Position_offset insertPosition \<le> path p ! i
           then p\<lparr>path := (path p)[i := path p ! i + howMany]\<rparr>
           else p)
      else p)"

text \<open>
  Modelled from the spec: \<open>Position._getTransformedByDeletion( deletePosition, howMany )\<close>,
  missing from the sources. A position inside the deleted nodes "collapses to the
  deletion point".
\<close>

definition Position_getTransformedByDeletion ::
  "position \<Rightarrow> position \<Rightarrow> nat \<Rightarrow> position" where
  "Position_getTransformedByDeletion p deletePosition howMany =
     (if root p \<noteq> root deletePosition then p
      else if Position_getParentPath deletePosition = Position_getParentPath p then
        (if Position_offset deletePosition < Position_offset p then
           (if Position_offset deletePosition + howMany > Position_offset p
            then Position_createFromPosition deletePosition
            else p\<lparr>path := Position_getParentPath p @ [Position_offset p - howMany]\<rparr>)
         else p)
      else if isAncestorPath (Position_getParentPath deletePosition)
                (Position_getParentPath p) then
        (let i = length (path deletePosition) - 1 in
           if Position_offset deletePosition \<le> path p ! i then
             (if Position_offset deletePosition + howMany > path p ! i
              then Position_createFromPosition deletePosition
              else p\<lparr>path := (path p)[i := path p ! i - howMany]\<rparr>)
           else p)
      else p)"

text \<open>
  Modelled from the spec: \<open>Position._getCombined( source, target )\<close>, missing from the
  sources: where a position of the moved nodes points after the nodes at \<open>source\<close> were
  moved to \<open>target\<close> ("combined source/target offset math"). It keeps its distance from
  \<open>source\<close> and what follows in its path; for a position of the moved nodes the
  subtraction does not go below zero.
\<close>

definition Position_getCombined :: "position \<Rightarrow> position \<Rightarrow> position \<Rightarrow> position" where
  "Position_getCombined p source target =
     (let i = length (path source) - 1 in
        \<lparr>root = root target,
         path = Position_getParentPath target @
                [(Position_offset target + path p ! i) - Position_offset source] @
                drop (i + 1) (path p)\<rparr>)"

text \<open>
  Modelled from the spec: the position is inside the \<open>howMany\<close> nodes at
  \<open>sourcePosition\<close>, strictly between them or inside one of them.
\<close>

definition isInMovedNodes :: "position \<Rightarrow> position \<Rightarrow> nat \<Rightarrow> bool" where
  "isInMovedNodes p sourcePosition howMany =
     (root p = root sourcePosition \<and>
      ((Position_getParentPath sourcePosition = Position_getParentPath p \<and>
        Position_offset sourcePosition < Position_offset p \<and>
        Position_offset p < Position_offset sourcePosition + howMany) \<or>
       (isAncestorPath (Position_getParentPath sourcePosition) (Position_getParentPath p) \<and>
        Position_offset sourcePosition \<le> path p ! (length (path sourcePosition) - 1) \<and>
        path p ! (length (path sourcePosition) - 1) < Position_offset sourcePosition + howMany)))"

text \<open>
  Modelled from the spec: \<open>Position._getTransformedByMove( sourcePosition, targetPosition,
  howMany, insertBefore, sticky )\<close>, missing from the sources:
  a position among the moved nodes (or, when \<open>sticky\<close>, at their start) moves with them;
  any other position is transformed by the deletion at the source and then by the
  insertion at the target.
\<close>

definition Position_getTransformedByMove ::
  "position \<Rightarrow> position \<Rightarrow> position \<Rightarrow> nat \<Rightarrow> bool \<Rightarrow> bool \<Rightarrow> position" where
  "Position_getTransformedByMove p sourcePosition targetPosition howMany insertBefore sticky =
     (let target = Position_getTransformedByDeletion targetPosition sourcePosition howMany in
        if isInMovedNodes p sourcePosition howMany \<or>
           (sticky \<and> Position_isEqual p sourcePosition)
        then Position_getCombined p sourcePosition target
        else Position_getTransformedByInsertion
               (Position_getTransformedByDeletion p sourcePosition howMany)
               target howMany insertBefore)"

text \<open>
  \<open>_getTransformedByInsertion( insertPosition, howMany, spread = false, isSticky = false )\<close>
  of \<open>Range\<close>.
\<close>

definition Range_getTransformedByInsertion ::
  "model_range \<Rightarrow> position \<Rightarrow> nat \<Rightarrow> bool \<Rightarrow> bool \<Rightarrow> model_range list" where
  "Range_getTransformedByInsertion r insertPosition howMany spread isSticky =
     (if spread \<and> Range_containsPosition r insertPosition then
        [new_Range (range_start r) (Some insertPosition),
         new_Range
           (Position_getTransformedByInsertion insertPosition insertPosition howMany True)
           (Some (Position_getTransformedByInsertion (range_end r) insertPosition howMany
                    (Range_isCollapsed r)))]
      else
        (let range = Range_createFromRange r;
             insertBeforeStart = (if Range_isCollapsed range then True else \<not> isSticky);
             insertBeforeEnd = (if Range_isCollapsed range then True else isSticky)
         in [\<lparr>range_start = Position_getTransformedByInsertion (range_start range)
                               insertPosition howMany insertBeforeStart,
              range_end = Position_getTransformedByInsertion (range_end range)
                             insertPosition howMany insertBeforeEnd\<rparr>]))"

text \<open>\<open>_getTransformedByMove( sourcePosition, targetPosition, howMany )\<close> of \<open>Range\<close>.\<close>

definition Range_getTransformedByMove ::
  "model_range \<Rightarrow> position \<Rightarrow> position \<Rightarrow> nat \<Rightarrow> model_range list" where
  "Range_getTransformedByMove r sourcePosition targetPosition howMany =
     (if Range_isCollapsed r then
        [new_Range (Position_getTransformedByMove (range_start r) sourcePosition
                      targetPosition howMany True True) None]
      else
        (let moveRange = new_Range sourcePosition
                           (Some (Position_getShiftedBy sourcePosition howMany));
             differenceSet = Range_getDifference r moveRange;
             common = Range_getIntersection r moveRange;
             difference =
               (if length differenceSet = 1 then
                  Some (new_Range
                    (Position_getTransformedByDeletion (range_start (differenceSet ! 0))
                       sourcePosition howMany)
                    (Some (Position_getTransformedByDeletion (range_end (differenceSet ! 0))
                       sourcePosition howMany)))
                else if length differenceSet = 2 then
                  Some (new_Range (range_start r)
                    (Some (Position_getTransformedByDeletion (range_end r)
                       sourcePosition howMany)))
                else None);
             insertPosition =
               Position_getTransformedByDeletion targetPosition sourcePosition howMany;
             result =
               (case difference of
                  Some d \<Rightarrow> Range_getTransformedByInsertion d insertPosition howMany
                              (common \<noteq> None) False
                | None \<Rightarrow> [])
         in result @
            (case common of
               Some c \<Rightarrow>
                 [new_Range
                    (Position_getCombined (range_start c) (range_start moveRange)
                       insertPosition)
                    (Some (Position_getCombined (range_end c) (range_start moveRange)
                       insertPosition))]
             | None \<Rightarrow> [])))"

text \<open>
  \<open>_getTransformedByDocumentChange( type, targetPosition, howMany, sourcePosition )\<close>.
  An operation that is not a move has no \<open>sourcePosition\<close> (\<open>None\<close>); a move without one
  cannot be built from the operations below, and reading from \<open>undefined\<close> throws.
\<close>

definition Range_getTransformedByDocumentChange ::
  "model_range \<Rightarrow> string \<Rightarrow> position \<Rightarrow> nat \<Rightarrow> position option
     \<Rightarrow> error + model_range list" where
  "Range_getTransformedByDocumentChange r type targetPosition howMany sourcePosition =
     (if type = ''insert'' then
        Inr (Range_getTransformedByInsertion r targetPosition howMany False False)
      else
        (case sourcePosition of
           Some s \<Rightarrow> Inr (Range_getTransformedByMove r s targetPosition howMany)
         | None \<Rightarrow> Inl TypeError))"

section \<open>Operations and deltas\<close>

text \<open>
  The operation classes are not among the sources, except \<open>ReinsertOperation\<close> and
  \<open>ChangeOperation\<close>; the fields below are the ones the sources read. Every operation
  has a \<open>baseVersion\<close>. A \<open>MoveOperation\<close>, and so a \<open>RemoveOperation\<close> and a
  \<open>ReinsertOperation\<close>, which extend it, has \<open>sourcePosition\<close>, \<open>howMany\<close> and
  \<open>targetPosition\<close>.
\<close>

record operation_base =
  baseVersion :: nat

record move_operation = operation_base +
  sourcePosition :: position
  howMany :: nat
  targetPosition :: position

datatype move_type = TypeMove | TypeRemove | TypeReinsert

text \<open>
  The operations of a delta as \<open>Range.getTransformedByDelta\<close> reads them: an
  \<open>InsertOperation\<close> with its \<open>position\<close>, the \<open>maxOffset\<close> of its \<open>nodes\<close> and its
  base version; an operation of the move family with its type; an operation of any
  other type (attribute, rename, no-op), with its type and base version, which a range
  is not transformed by.
\<close>

datatype operation =
    InsertOperation position nat nat
  | MoveOperation move_type move_operation
  | OtherOperation string nat

fun move_type_name :: "move_type \<Rightarrow> string" where
  "move_type_name TypeMove = ''move''"
| "move_type_name TypeRemove = ''remove''"
| "move_type_name TypeReinsert = ''reinsert''"

type_synonym delta = "operation list"

text \<open>
  One turn of the loop over \<open>delta.operations\<close> for one range:
  \<open>operation.targetPosition || operation.position\<close> and
  \<open>operation.howMany || operation.nodes.maxOffset\<close>. A move of zero nodes has a falsy
  \<open>howMany\<close> and no \<open>nodes\<close>, so reading \<open>maxOffset\<close> throws a \<open>TypeError\<close>.
\<close>

fun transformByOperation :: "operation \<Rightarrow> model_range \<Rightarrow> error + model_range list" where
  "transformByOperation (InsertOperation position maxOffset bv) r =
     Range_getTransformedByDocumentChange r ''insert'' position maxOffset None"
| "transformByOperation (MoveOperation ty m) r =
     (if howMany m = 0 then Inl TypeError
      else Range_getTransformedByDocumentChange r (move_type_name ty) (targetPosition m)
             (howMany m) (Some (sourcePosition m)))"
| "transformByOperation (OtherOperation ty bv) r = Inr [r]"

text \<open>
  The loops \<open>for ( let i = 0; i < ranges.length; i++ )\<close> that replace each range by its
  transformation (\<open>ranges.splice( i, 1, ...result ); i += result.length - 1\<close>): every
  range of the array is visited once, in order, and the results take its place. A throw
  ends the loop.
\<close>

fun spliceResults ::
  "(model_range \<Rightarrow> error + model_range list) \<Rightarrow> model_range list \<Rightarrow> error + model_range list"
  where
  "spliceResults f [] = Inr []"
| "spliceResults f (r # rs) =
     (case f r of
        Inl e \<Rightarrow> Inl e
      | Inr result \<Rightarrow>
          (case spliceResults f rs of
             Inl e \<Rightarrow> Inl e
           | Inr rest \<Rightarrow> Inr (result @ rest)))"

fun transformByOperations :: "operation list \<Rightarrow> model_range list \<Rightarrow> error + model_range list"
  where
  "transformByOperations [] ranges = Inr ranges"
| "transformByOperations (operation # operations) ranges =
     (case spliceResults (transformByOperation operation) ranges of
        Inl e \<Rightarrow> Inl e
      | Inr ranges' \<Rightarrow> transformByOperations operations ranges')"

definition Range_getTransformedByDelta :: "model_range \<Rightarrow> delta \<Rightarrow> error + model_range list"
  where
  "Range_getTransformedByDelta r delta =
     transformByOperations delta [Range_createFromRange r]"

fun transformByDeltas :: "delta list \<Rightarrow> model_range list \<Rightarrow> error + model_range list" where
  "transformByDeltas [] ranges = Inr ranges"
| "transformByDeltas (delta # deltas) ranges =
     (case spliceResults (\<lambda>r. Range_getTransformedByDelta r delta) ranges of
        Inl e \<Rightarrow> Inl e
      | Inr ranges' \<Rightarrow> transformByDeltas deltas ranges')"

text \<open>
  The last loops of \<open>getTransformedByDeltas\<close>. Inner loop, for the range \<open>rangeI = ranges[ i ]\<close>
  and \<open>j\<close> from \<open>i + 1\<close>: when \<open>ranges[ j ]\<close> is contained in, contains or equals the
  range, \<open>ranges.splice( j, 1 )\<close> removes it; \<open>j\<close> is incremented in both cases.
\<close>

function removeNested :: "model_range \<Rightarrow> nat \<Rightarrow> model_range list \<Rightarrow> model_range list" where
  "removeNested rangeI j ranges =
     (if j < length ranges then
        (let next = ranges ! j in
           if Range_containsRange rangeI next \<or> Range_containsRange next rangeI \<or>
              Range_isEqual rangeI next
           then removeNested rangeI (j + 1) (take j ranges @ drop (j + 1) ranges)
           else removeNested rangeI (j + 1) ranges)
      else ranges)"
  by pat_completeness auto
termination
  by (relation "measure (\<lambda>(rangeI, j, ranges). length ranges - j)") auto

declare removeNested.simps [simp del]

text \<open>Outer loop: \<open>for ( let i = 0; i < ranges.length; i++ )\<close>.\<close>

function removeNestedAll :: "nat \<Rightarrow> model_range list \<Rightarrow> model_range list" where
  "removeNestedAll i ranges =
     (if i < length ranges
      then removeNestedAll (i + 1) (removeNested (ranges ! i) (i + 1) ranges)
      else ranges)"
  by pat_completeness auto
termination
proof (relation "measure (\<lambda>(i, ranges). length ranges - i)")
  show "wf (measure (\<lambda>(i, ranges). length ranges - i))"
    by simp
next
  fix i :: nat and ranges :: "model_range list"
  assume less: "i < length ranges"
  have shorter: "length (removeNested rangeI j rs) \<le> length rs" for rangeI j rs
  proof (induction rangeI j rs rule: removeNested.induct)
    case (1 rangeI j ranges)
    show ?case
    proof (cases "j < length ranges")
      case True
      then show ?thesis
        using "1.IH" [OF True refl]
        by (subst removeNested.simps) (auto simp: Let_def)
    next
      case False
      then show ?thesis by (subst removeNested.simps) simp
    qed
  qed
  show "((i + 1, removeNested (ranges ! i) (i + 1) ranges), (i, ranges))
      \<in> measure (\<lambda>(i, ranges). length ranges - i)"
    using less shorter [of "ranges ! i" "i + 1" ranges] by simp
qed

declare removeNestedAll.simps [simp del]

definition Range_getTransformedByDeltas ::
  "model_range \<Rightarrow> delta list \<Rightarrow> error + model_range list" where
  "Range_getTransformedByDeltas r deltas =
     (case transformByDeltas deltas [Range_createFromRange r] of
        Inl e \<Rightarrow> Inl e
      | Inr ranges \<Rightarrow> Inr (removeNestedAll 0 ranges))"

section \<open>Reversed operations\<close>

text \<open>
  Modelled from the spec: the node classes are missing from the sources. A node of the
  document tree is an element, with its name and its children, or a character of a text,
  a node without children.
\<close>

datatype model_node = ModelNode string "model_node list"

text \<open>
  Modelled from the spec: the document "holds root elements", among them the graveyard
  root "holding removed content". A root is known by its name (the \<open>root\<close> of a
  position), and the document gives the children of each root.
\<close>

type_synonym document_roots = "string \<Rightarrow> model_node list"

text \<open>
  Modelled from the spec: the children of the element that a path leads to, starting from
  the children of a root; \<open>None\<close> when the path leaves the tree.
\<close>

fun childrenAt :: "model_node list \<Rightarrow> nat list \<Rightarrow> model_node list option" where
  "childrenAt children [] = Some children"
| "childrenAt children (i # rest) =
     (if i < length children
      then (case children ! i of ModelNode name inner \<Rightarrow> childrenAt inner rest)
      else None)"

text \<open>
  Modelled from the spec: the children of a root after the children of the element that
  the path leads to have been replaced by \<open>f\<close> of them; nothing changes when the path
  leaves the tree.
\<close>

fun updateChildrenAt ::
  "model_node list \<Rightarrow> nat list \<Rightarrow> (model_node list \<Rightarrow> model_node list)
     \<Rightarrow> model_node list" where
  "updateChildrenAt children [] f = f children"
| "updateChildrenAt children (i # rest) f =
     (if i < length children
      then children[i := (case children ! i of
                            ModelNode name inner \<Rightarrow>
                              ModelNode name (updateChildrenAt inner rest f))]
      else children)"

text \<open>
  Modelled from the spec: a move operation "detaches a span from source". The \<open>n\<close> nodes
  that follow the position \<open>p\<close> are taken out of their parent; the value is the detached
  nodes with the document without them, or \<open>None\<close> when the parent or one of the nodes
  does not exist.
\<close>

definition detachNodes ::
  "document_roots \<Rightarrow> position \<Rightarrow> nat \<Rightarrow> (model_node list \<times> document_roots) option" where
  "detachNodes doc p n =
     (case childrenAt (doc (root p)) (Position_getParentPath p) of
        None \<Rightarrow> None
      | Some children \<Rightarrow>
          if Position_offset p + n \<le> length children
          then Some (take n (drop (Position_offset p) children),
                     doc(root p := updateChildrenAt (doc (root p)) (Position_getParentPath p)
                        (\<lambda>cs. take (Position_offset p) cs @ drop (Position_offset p + n) cs)))
          else None)"

text \<open>
  Modelled from the spec: a move operation "re-attaches" the span "at target". The nodes
  are put among the children of the parent of the position \<open>p\<close>, at the offset of \<open>p\<close>;
  \<open>None\<close> when the parent does not exist or has fewer children than the offset.
\<close>

definition attachNodes ::
  "document_roots \<Rightarrow> position \<Rightarrow> model_node list \<Rightarrow> document_roots option" where
  "attachNodes doc p nodes =
     (case childrenAt (doc (root p)) (Position_getParentPath p) of
        None \<Rightarrow> None
      | Some children \<Rightarrow>
          if Position_offset p \<le> length children
          then Some (doc(root p := updateChildrenAt (doc (root p)) (Position_getParentPath p)
                        (\<lambda>cs. take (Position_offset p) cs @ nodes @ drop (Position_offset p) cs)))
          else None)"

text \<open>
  Modelled from the spec: the execution of a \<open>MoveOperation\<close>, and so of the
  \<open>RemoveOperation\<close> and the \<open>ReinsertOperation\<close> that extend it, is missing from the
  sources. It "detaches a span from source and re-attaches at target": the \<open>howMany\<close>
  nodes at \<open>sourcePosition\<close> are moved to \<open>targetPosition\<close>, which is read in the tree
  without the detached nodes (as \<open>Range._getTransformedByMove\<close> reads the position of the
  insertion). The value is the document after the move, or \<open>None\<close> when the operation
  cannot be executed: the nodes or a parent do not exist, or the target is inside the
  nodes to move, which cannot be attached inside themselves. The version of the document
  is not part of the model.
\<close>

definition MoveOperation_execute ::
  "document_roots \<Rightarrow> move_operation \<Rightarrow> document_roots option" where
  "MoveOperation_execute doc this =
     (if isInMovedNodes (targetPosition this) (sourcePosition this) (howMany this) then None
      else
        (case detachNodes doc (sourcePosition this) (howMany this) of
           None \<Rightarrow> None
         | Some (nodes, doc') \<Rightarrow>
             attachNodes doc'
               (Position_getTransformedByDeletion (targetPosition this) (sourcePosition this)
                  (howMany this))
               nodes))"

text \<open>
  Modelled from the spec: the constructor \<open>new RemoveOperation( position, howMany,
  baseVersion )\<close> is missing from the sources. A \<open>RemoveOperation\<close> is a "MoveOperation
  targeting a graveyard root": it moves the \<open>howMany\<close> nodes at \<open>position\<close>, which is its
  \<open>sourcePosition\<close> (the tests remove two nodes of the main root with \<open>new
  RemoveOperation( new Position( root, [ 1, 2 ] ), 2, doc.version )\<close> and expect
  \<open>sourcePosition\<close> of a \<open>RemoveOperation\<close> to be the position of the removed nodes), to
  a position of the graveyard root. Which root is the graveyard and which position of it
  the constructor takes are the parameters \<open>graveyard\<close> and \<open>graveyardPath\<close>.
\<close>

definition new_RemoveOperation ::
  "string \<Rightarrow> nat list \<Rightarrow> position \<Rightarrow> nat \<Rightarrow> nat \<Rightarrow> operation" where
  "new_RemoveOperation graveyard graveyardPath position howMany' baseVersion' =
     MoveOperation TypeRemove
       \<lparr>baseVersion = baseVersion', sourcePosition = position, howMany = howMany',
        targetPosition = new_Position graveyard graveyardPath\<rparr>"

text \<open>
  \<open>ReinsertOperation.getReversed()\<close>:
  \<open>return new RemoveOperation( this.targetPosition, this.howMany, this.baseVersion + 1 )\<close>.
  A \<open>ReinsertOperation\<close> has the fields of the \<open>MoveOperation\<close> it extends; the
  graveyard of the document and the position that the constructor of \<open>RemoveOperation\<close>
  takes in it are passed on.
\<close>

definition ReinsertOperation_getReversed ::
  "string \<Rightarrow> nat list \<Rightarrow> move_operation \<Rightarrow> operation" where
  "ReinsertOperation_getReversed graveyard graveyardPath this =
     new_RemoveOperation graveyard graveyardPath
       (targetPosition this) (howMany this) (baseVersion this + 1)"

section \<open>ChangeOperation\<close>

text \<open>
  An attribute is a key with a value. \<open>oldAttr\<close> and \<open>newAttr\<close> of a
  \<open>ChangeOperation\<close> are attributes or \<open>null\<close> (\<open>None\<close>).
\<close>

record 'v attribute =
  attr_key :: string
  attr_value :: 'v

record 'v change_operation = operation_base +
  operation_range :: model_range
  oldAttr :: "'v attribute option"
  newAttr :: "'v attribute option"

text \<open>
  Modelled from the spec: the class of the nodes is missing from the sources. A node
  carries at most one value for a key: its attributes are a map from keys to values.
  \<open>hasAttr\<close> is called with an attribute (the node has that key with that value: it
  "currently has \<open>oldValue\<close>") and with a key (the node "already has the key");
  \<open>removeAttr\<close> takes a key and \<open>setAttr\<close> an attribute.
\<close>

type_synonym 'v node_attrs = "string \<rightharpoonup> 'v"

text \<open>Modelled from the spec: \<open>hasAttr\<close> called with an attribute.\<close>

definition Node_hasAttr :: "'v node_attrs \<Rightarrow> 'v attribute \<Rightarrow> bool" where
  "Node_hasAttr attrs a = (attrs (attr_key a) = Some (attr_value a))"

text \<open>Modelled from the spec: \<open>hasAttr\<close> called with a key.\<close>

definition Node_hasAttrKey :: "'v node_attrs \<Rightarrow> string \<Rightarrow> bool" where
  "Node_hasAttrKey attrs k = (attrs k \<noteq> None)"

text \<open>Modelled from the spec: \<open>removeAttr( key )\<close>.\<close>

definition Node_removeAttr :: "'v node_attrs \<Rightarrow> string \<Rightarrow> 'v node_attrs" where
  "Node_removeAttr attrs k = attrs(k := None)"

text \<open>Modelled from the spec: \<open>setAttr( attr )\<close>.\<close>

definition Node_setAttr :: "'v node_attrs \<Rightarrow> 'v attribute \<Rightarrow> 'v node_attrs" where
  "Node_setAttr attrs a = attrs(attr_key a \<mapsto> attr_value a)"

text \<open>
  Nodes are objects that the operation changes in place: the store maps the identity of
  a node to its attributes, and the iteration \<open>for ( value of this.range )\<close> is the list
  of the identities of the nodes (\<open>value.node\<close>) in the order they are visited.
\<close>

type_synonym 'v node_store = "nat \<Rightarrow> 'v node_attrs"

text \<open>
  The loop under \<open>// Remove or change.\<close> The result is the error thrown, if any, with
  the store as it is at that moment.
\<close>

fun removeOrChange ::
  "'v attribute \<Rightarrow> 'v attribute option \<Rightarrow> nat list \<Rightarrow> 'v node_store
     \<Rightarrow> error option \<times> 'v node_store" where
  "removeOrChange oldA newA [] store = (None, store)"
| "removeOrChange oldA newA (node # nodes) store =
     (if \<not> Node_hasAttr (store node) oldA then
        (Some (CKEditorError ''operation-change-no-attr-to-remove''), store)
      else if newA = None then
        removeOrChange oldA newA nodes
          (store(node := Node_removeAttr (store node) (attr_key oldA)))
      else removeOrChange oldA newA nodes store)"

text \<open>The loop under \<open>// Insert or change.\<close>\<close>

fun insertOrChange ::
  "'v attribute option \<Rightarrow> 'v attribute \<Rightarrow> nat list \<Rightarrow> 'v node_store
     \<Rightarrow> error option \<times> 'v node_store" where
  "insertOrChange oldA newA [] store = (None, store)"
| "insertOrChange oldA newA (node # nodes) store =
     (if oldA = None \<and> Node_hasAttrKey (store node) (attr_key newA) then
        (Some (CKEditorError ''operation-change-attr-exists''), store)
      else insertOrChange oldA newA nodes (store(node := Node_setAttr (store node) newA)))"

text \<open>
  \<open>ChangeOperation._execute()\<close>; \<open>nodesOf\<close> gives the nodes that iterating a range
  visits (the iterator of the range is not among the sources).
\<close>

definition differentKeys :: "'v attribute option \<Rightarrow> 'v attribute option \<Rightarrow> bool" where
  "differentKeys oldA newA =
     (case (oldA, newA) of
        (Some a, Some b) \<Rightarrow> attr_key a \<noteq> attr_key b
      | _ \<Rightarrow> False)"

definition ChangeOperation_execute ::
  "(model_range \<Rightarrow> nat list) \<Rightarrow> 'v change_operation \<Rightarrow> 'v node_store
     \<Rightarrow> error option \<times> 'v node_store" where
  "ChangeOperation_execute nodesOf this store =
     (if differentKeys (oldAttr this) (newAttr this) then
        (Some (CKEditorError ''operation-change-different-keys''), store)
      else
        (case (case oldAttr this of
                 Some a \<Rightarrow> removeOrChange a (newAttr this)
                             (nodesOf (operation_range this)) store
               | None \<Rightarrow> (None, store)) of
           (Some e, store1) \<Rightarrow> (Some e, store1)
         | (None, store1) \<Rightarrow>
             (case newAttr this of
                Some b \<Rightarrow> insertOrChange (oldAttr this) b
                            (nodesOf (operation_range this)) store1
              | None \<Rightarrow> (None, store1))))"

text \<open>\<open>ChangeOperation.getReversed()\<close>.\<close>

definition ChangeOperation_getReversed :: "'v change_operation \<Rightarrow> 'v change_operation" where
  "ChangeOperation_getReversed this =
     \<lparr>baseVersion = baseVersion this + 1,
      operation_range = operation_range this,
      oldAttr = newAttr this,
      newAttr = oldAttr this\<rparr>"

section \<open>LiveSelection\<close>

text \<open>
  \<open>class LiveSelection extends Selection\<close> (\<open>unnamed/part_000\<close>). The state of a
  selection: \<open>_ranges\<close>, \<open>_lastRangeBackward\<close>, \<open>_attrs\<close> (a \<open>Map\<close>, kept as
  the list of its entries in insertion order) and \<open>_attributePriority\<close> (a \<open>Map\<close>
  from keys to \<open>'low'\<close> or \<open>'normal'\<close>; the order of its entries has no effect on
  what the code does with it, so it is kept as a partial function). The effects outside
  the selection are part of the state too: the events it fires, the warnings it logs
  with \<open>log.warn\<close> and the live ranges it detaches.
\<close>

datatype priority = Low | Normal

datatype event = ChangeRange bool | ChangeAttribute "string list" bool

record 'v live_selection =
  sel_ranges :: "model_range list"
  sel_lastRangeBackward :: bool
  sel_attrs :: "(string \<times> 'v) list"
  sel_attributePriority :: "string \<rightharpoonup> priority"
  sel_fired :: "event list"
  sel_warnings :: "string list"
  sel_detached :: "model_range list"

text \<open>
  What the selection reads of its document: the graveyard root, the range that
  \<open>_getDefaultRange()\<close> returns, and the attributes around the selection. The document
  class and the nodes, texts and tree walker that \<open>_getSurroundingAttributes\<close> reads
  are not among the sources: the attributes that method finds for a selection with
  given ranges are the parameter \<open>doc_surroundingAttributes\<close>.
\<close>

record 'v document =
  doc_graveyard :: string
  doc_defaultRange :: model_range
  doc_surroundingAttributes :: "model_range list \<Rightarrow> (string \<times> 'v) list"

definition LiveSelection_rangeCount :: "'v live_selection \<Rightarrow> nat" where
  "LiveSelection_rangeCount this =
     (if length (sel_ranges this) \<noteq> 0 then length (sel_ranges this) else 1)"

text \<open>\<open>*getRanges()\<close>: the ranges the iterator yields, in order.\<close>

definition LiveSelection_getRanges :: "'v document \<Rightarrow> 'v live_selection \<Rightarrow> model_range list"
  where
  "LiveSelection_getRanges doc this =
     (if length (sel_ranges this) \<noteq> 0 then sel_ranges this else [doc_defaultRange doc])"

text \<open>
  The argument of \<open>addRange\<close> is any object; \<open>range instanceof Range\<close> tells a range
  from anything else.
\<close>

datatype range_argument = RangeInstance model_range | NotARange

text \<open>
  \<open>_prepareRange( range )\<close>: the error thrown, or the live range returned (\<open>None\<close>
  for \<open>undefined\<close>) with the state. \<open>_checkRange\<close> is inherited from \<open>Selection\<close>,
  which is not among the sources: it is the parameter \<open>checkRange\<close>, given the range
  and the ranges of the selection, with the error it throws, if any. The listener that
  the live range gets reacts to later changes of the document.
\<close>

definition priv_prepareRange ::
  "(model_range \<Rightarrow> model_range list \<Rightarrow> error option) \<Rightarrow> 'v document \<Rightarrow> range_argument
     \<Rightarrow> 'v live_selection \<Rightarrow> error + (model_range option \<times> 'v live_selection)" where
  "priv_prepareRange checkRange doc arg this =
     (case arg of
        NotARange \<Rightarrow> Inl (CKEditorError ''model-selection-added-not-range'')
      | RangeInstance r \<Rightarrow>
          (if Range_root r = doc_graveyard doc then
             Inr (None, this\<lparr>sel_warnings :=
                    sel_warnings this @ [''model-selection-range-in-graveyard'']\<rparr>)
           else
             (case checkRange r (sel_ranges this) of
                Some e \<Rightarrow> Inl e
              | None \<Rightarrow> Inr (Some (Range_createFromRange r), this))))"

text \<open>\<open>_pushRange( range )\<close>.\<close>

definition priv_pushRange ::
  "(model_range \<Rightarrow> model_range list \<Rightarrow> error option) \<Rightarrow> 'v document \<Rightarrow> range_argument
     \<Rightarrow> 'v live_selection \<Rightarrow> error + 'v live_selection" where
  "priv_pushRange checkRange doc arg this =
     (case priv_prepareRange checkRange doc arg this of
        Inl e \<Rightarrow> Inl e
      | Inr (None, this') \<Rightarrow> Inr this'
      | Inr (Some liveRange, this') \<Rightarrow>
          Inr (this'\<lparr>sel_ranges := sel_ranges this' @ [liveRange]\<rparr>))"

text \<open>
  \<open>_removeRangeAtIndex( index )\<close>: \<open>splice( index, 1 )[ 0 ]\<close> is \<open>undefined\<close> when
  there is no range at the index, and calling \<open>detach\<close> on it throws.
\<close>

definition priv_removeRangeAtIndex ::
  "nat \<Rightarrow> 'v live_selection \<Rightarrow> error + 'v live_selection" where
  "priv_removeRangeAtIndex index this =
     (if index < length (sel_ranges this) then
        Inr (this\<lparr>sel_ranges := take index (sel_ranges this) @ drop (index + 1) (sel_ranges this),
                  sel_detached := sel_detached this @ [sel_ranges this ! index]\<rparr>)
      else Inl TypeError)"

text \<open>\<open>_popRange()\<close>: the index \<open>this._ranges.length - 1\<close> is \<open>-1\<close> for no ranges.\<close>

definition priv_popRange :: "'v live_selection \<Rightarrow> error + 'v live_selection" where
  "priv_popRange this =
     (if sel_ranges this = [] then Inl TypeError
      else priv_removeRangeAtIndex (length (sel_ranges this) - 1) this)"

text \<open>
  \<open>_setAttribute( key, value, directChange = true )\<close>: whether the value has changed,
  with the state.
\<close>

definition priv_setAttribute ::
  "string \<Rightarrow> 'v \<Rightarrow> bool \<Rightarrow> 'v live_selection \<Rightarrow> bool \<times> 'v live_selection" where
  "priv_setAttribute key v directChange this =
     (let priority = (if directChange then Normal else Low) in
        if priority = Low \<and> sel_attributePriority this key = Some Normal then (False, this)
        else if map_of (sel_attrs this) key = Some v then (False, this)
        else (True, this\<lparr>sel_attrs := AList.update key v (sel_attrs this),
                         sel_attributePriority := (sel_attributePriority this)(key \<mapsto> priority)\<rparr>))"

text \<open>\<open>_removeAttribute( key, directChange = true )\<close>.\<close>

definition priv_removeAttribute ::
  "string \<Rightarrow> bool \<Rightarrow> 'v live_selection \<Rightarrow> bool \<times> 'v live_selection" where
  "priv_removeAttribute key directChange this =
     (let priority = (if directChange then Normal else Low) in
        if priority = Low \<and> sel_attributePriority this key = Some Normal then (False, this)
        else if map_of (sel_attrs this) key = None then (False, this)
        else (True, this\<lparr>sel_attrs := AList.delete key (sel_attrs this),
                         sel_attributePriority := (sel_attributePriority this)(key \<mapsto> priority)\<rparr>))"

text \<open>\<open>Set.prototype.add\<close> on the list of the elements of a set in insertion order.\<close>

definition Set_add :: "'a \<Rightarrow> 'a list \<Rightarrow> 'a list" where
  "Set_add x xs = (if x \<in> set xs then xs else xs @ [x])"

text \<open>
  The first loop of \<open>_setAttributesTo\<close>, over the entries of \<open>this.getAttributes()\<close>:
  an attribute that is not about to be set with the same value is removed, if its
  priority allows. Only the entry being visited is ever deleted, so the loop visits the
  entries the map had when the loop began.
\<close>

fun removeOtherAttributes ::
  "(string \<times> 'v) list \<Rightarrow> bool \<Rightarrow> (string \<times> 'v) list \<Rightarrow> string list \<times> 'v live_selection
     \<Rightarrow> string list \<times> 'v live_selection" where
  "removeOtherAttributes attrs directChange [] (changed, this) = (changed, this)"
| "removeOtherAttributes attrs directChange ((oldKey, oldValue) # entries) (changed, this) =
     (if map_of attrs oldKey = Some oldValue
      then removeOtherAttributes attrs directChange entries (changed, this)
      else
        (case priv_removeAttribute oldKey directChange this of
           (True, this') \<Rightarrow>
             removeOtherAttributes attrs directChange entries (Set_add oldKey changed, this')
         | (False, this') \<Rightarrow>
             removeOtherAttributes attrs directChange entries (changed, this')))"

text \<open>The second loop of \<open>_setAttributesTo\<close>, over the entries of \<open>attrs\<close>.\<close>

fun setAttributes ::
  "bool \<Rightarrow> (string \<times> 'v) list \<Rightarrow> string list \<times> 'v live_selection
     \<Rightarrow> string list \<times> 'v live_selection" where
  "setAttributes directChange [] (changed, this) = (changed, this)"
| "setAttributes directChange ((key, v) # entries) (changed, this) =
     (case priv_setAttribute key v directChange this of
        (True, this') \<Rightarrow> setAttributes directChange entries (Set_add key changed, this')
      | (False, this') \<Rightarrow> setAttributes directChange entries (changed, this'))"

text \<open>
  \<open>_setAttributesTo( attrs, directChange = true )\<close>: the set of the changed keys, with
  the state. \<open>attrs\<close> is a \<open>Map\<close>, given by its entries.
\<close>

definition priv_setAttributesTo ::
  "(string \<times> 'v) list \<Rightarrow> bool \<Rightarrow> 'v live_selection \<Rightarrow> string list \<times> 'v live_selection"
  where
  "priv_setAttributesTo attrs directChange this =
     setAttributes directChange attrs
       (removeOtherAttributes attrs directChange (sel_attrs this) ([], this))"

text \<open>
  \<open>toMap\<close> of an iterable of pairs: the entries of the \<open>Map\<close> it makes; a key that comes
  again replaces the value of its entry.
\<close>

definition toMap :: "(string \<times> 'v) list \<Rightarrow> (string \<times> 'v) list" where
  "toMap pairs = foldl (\<lambda>m (k, v). AList.update k v m) [] pairs"

text \<open>
  \<open>_updateAttributes( clearAll )\<close>. Without \<open>clearAll\<close> the loop over
  \<open>_attributePriority\<close> deletes every key of priority \<open>'low'\<close> from \<open>_attrs\<close> and
  from \<open>_attributePriority\<close>.
\<close>

definition priv_updateAttributes ::
  "'v document \<Rightarrow> bool \<Rightarrow> 'v live_selection \<Rightarrow> 'v live_selection" where
  "priv_updateAttributes doc clearAll this =
     (let newAttributes = toMap (doc_surroundingAttributes doc (sel_ranges this));
          oldAttributes = toMap (sel_attrs this);
          this1 =
            (if clearAll then
               this\<lparr>sel_attributePriority := Map.empty, sel_attrs := []\<rparr>
             else
               this\<lparr>sel_attrs :=
                      filter (\<lambda>(key, v). sel_attributePriority this key \<noteq> Some Low)
                        (sel_attrs this),
                    sel_attributePriority :=
                      (\<lambda>key. if sel_attributePriority this key = Some Low then None
                              else sel_attributePriority this key)\<rparr>);
          this2 = snd (priv_setAttributesTo newAttributes False this1);
          changed =
            map fst (filter (\<lambda>(newKey, newValue). map_of oldAttributes newKey \<noteq> Some newValue)
                       (sel_attrs this2)) @
            map fst (filter (\<lambda>(oldKey, oldValue). map_of (sel_attrs this2) oldKey = None)
                       oldAttributes)
      in if length changed > 0
         then this2\<lparr>sel_fired := sel_fired this2 @ [ChangeAttribute changed False]\<rparr>
         else this2)"

definition LiveSelection_refreshAttributes ::
  "'v document \<Rightarrow> 'v live_selection \<Rightarrow> 'v live_selection" where
  "LiveSelection_refreshAttributes doc this = priv_updateAttributes doc True this"

text \<open>
  Modelled from the spec: \<open>Selection.addRange\<close> and \<open>Selection.removeAllRanges\<close>, the
  methods of the base class that \<open>LiveSelection\<close> calls through \<open>super\<close>, are missing
  from the sources. \<open>addRange( range, isBackward )\<close> adds the range with \<open>_pushRange\<close>,
  records the direction and fires \<open>change:range\<close>; \<open>removeAllRanges()\<close> removes the
  ranges one by one with \<open>_popRange\<close>, as \<open>destroy\<close> does, so that the selection has no
  range of its own and is back on its default range, and fires \<open>change:range\<close> if there
  was a range to remove.
\<close>

definition Selection_addRange ::
  "(model_range \<Rightarrow> model_range list \<Rightarrow> error option) \<Rightarrow> 'v document \<Rightarrow> range_argument
     \<Rightarrow> bool \<Rightarrow> 'v live_selection \<Rightarrow> error + 'v live_selection" where
  "Selection_addRange checkRange doc arg isBackward this =
     (case priv_pushRange checkRange doc arg this of
        Inl e \<Rightarrow> Inl e
      | Inr this' \<Rightarrow>
          Inr (this'\<lparr>sel_lastRangeBackward := isBackward,
                     sel_fired := sel_fired this' @ [ChangeRange True]\<rparr>))"

text \<open>
  Modelled from the spec: the loop of \<open>Selection.removeAllRanges\<close>,
  \<open>while ( this._ranges.length > 0 ) this._popRange()\<close>.
\<close>

function popAllRanges :: "'v live_selection \<Rightarrow> error + 'v live_selection" where
  "popAllRanges this =
     (if length (sel_ranges this) > 0 then
        (case priv_popRange this of
           Inl e \<Rightarrow> Inl e
         | Inr this' \<Rightarrow> popAllRanges this')
      else Inr this)"
  by pat_completeness auto
termination
  by (relation "measure (\<lambda>this. length (sel_ranges this))")
    (auto simp: priv_popRange_def priv_removeRangeAtIndex_def split: if_splits)

declare popAllRanges.simps [simp del]

text \<open>Modelled from the spec: \<open>Selection.removeAllRanges()\<close>.\<close>

definition Selection_removeAllRanges :: "'v live_selection \<Rightarrow> error + 'v live_selection" where
  "Selection_removeAllRanges this =
     (if length (sel_ranges this) > 0 then
        (case popAllRanges this of
           Inl e \<Rightarrow> Inl e
         | Inr this' \<Rightarrow> Inr (this'\<lparr>sel_fired := sel_fired this' @ [ChangeRange True]\<rparr>))
      else Inr this)"

text \<open>\<open>addRange( range, isBackward = false )\<close> of \<open>LiveSelection\<close>.\<close>

definition LiveSelection_addRange ::
  "(model_range \<Rightarrow> model_range list \<Rightarrow> error option) \<Rightarrow> 'v document \<Rightarrow> range_argument
     \<Rightarrow> bool \<Rightarrow> 'v live_selection \<Rightarrow> error + 'v live_selection" where
  "LiveSelection_addRange checkRange doc arg isBackward this =
     (case Selection_addRange checkRange doc arg isBackward this of
        Inl e \<Rightarrow> Inl e
      | Inr this' \<Rightarrow> Inr (LiveSelection_refreshAttributes doc this'))"

text \<open>\<open>removeAllRanges()\<close> of \<open>LiveSelection\<close>.\<close>

definition LiveSelection_removeAllRanges ::
  "'v document \<Rightarrow> 'v live_selection \<Rightarrow> error + 'v live_selection" where
  "LiveSelection_removeAllRanges doc this =
     (case Selection_removeAllRanges this of
        Inl e \<Rightarrow> Inl e
      | Inr this' \<Rightarrow> Inr (LiveSelection_refreshAttributes doc this'))"

section \<open>Range objects and position objects\<close>

text \<open>
  Positions are objects that can be changed in place (\<open>getMinimalFlatRanges\<close> does so
  with a position of its own). For the constructor of \<open>Range\<close> the heap of position
  objects is explicit: a reference is an index into the list of the objects, and a new
  object gets the next index.
\<close>

type_synonym position_heap = "position list"

text \<open>
  Modelled from the spec: \<open>Position.createFromPosition\<close> is missing from the sources.
  On objects it makes a new position object with the root and a copy of the path of the
  position it is given ("ownership is always a fresh value, never a shared mutable
  array"; the constructor of \<open>Range\<close> "creates its own Position instances basing on
  passed values").
\<close>

definition Position_createFromPosition_object ::
  "position_heap \<Rightarrow> nat \<Rightarrow> nat \<times> position_heap" where
  "Position_createFromPosition_object heap ref =
     (length heap, heap @ [Position_createFromPosition (heap ! ref)])"

record range_object =
  start_ref :: nat
  end_ref :: nat

text \<open>
  \<open>constructor( start, end = null )\<close> on objects: the range and the heap after the
  two calls of \<open>Position.createFromPosition\<close>.
\<close>

definition new_Range_object ::
  "position_heap \<Rightarrow> nat \<Rightarrow> nat option \<Rightarrow> range_object \<times> position_heap" where
  "new_Range_object heap start end_arg =
     (let (s, heap1) = Position_createFromPosition_object heap start;
          (e, heap2) =
            (case end_arg of
               Some end_position \<Rightarrow> Position_createFromPosition_object heap1 end_position
             | None \<Rightarrow> Position_createFromPosition_object heap1 start)
      in (\<lparr>start_ref = s, end_ref = e\<rparr>, heap2))"

text \<open>The boundaries of a range object, read from the heap.\<close>

definition Range_read :: "position_heap \<Rightarrow> range_object \<Rightarrow> model_range" where
  "Range_read heap r = \<lparr>range_start = heap ! start_ref r, range_end = heap ! end_ref r\<rparr>"

section \<open>Properties of the comparison of positions\<close>

lemma comparePaths_refl: "comparePaths xs xs = Same"
  by (induction xs) simp_all

lemma comparePaths_Same_iff: "comparePaths xs ys = Same \<longleftrightarrow> xs = ys"
  by (induction xs ys rule: comparePaths.induct) auto

lemma comparePaths_flip: "comparePaths xs ys = Before \<longleftrightarrow> comparePaths ys xs = After"
  by (induction xs ys rule: comparePaths.induct) auto

lemma Position_isBefore_irrefl: "\<not> Position_isBefore p p"
  by (simp add: Position_isBefore_def Position_compareWith_def comparePaths_refl)

lemma Position_isAfter_irrefl: "\<not> Position_isAfter p p"
  by (simp add: Position_isAfter_def Position_compareWith_def comparePaths_refl)

lemma Position_isBefore_isAfter: "Position_isBefore p q \<longleftrightarrow> Position_isAfter q p"
  by (auto simp: Position_isBefore_def Position_isAfter_def Position_compareWith_def
      comparePaths_flip)

lemma Position_createFromPosition_id: "Position_createFromPosition p = p"
  by (simp add: Position_createFromPosition_def)

lemma Range_createFromRange_id: "Range_createFromRange r = r"
  by (simp add: Range_createFromRange_def new_Range_def Position_createFromPosition_id)

lemma Range_not_containsPosition_start: "\<not> Range_containsPosition r (range_start r)"
  by (simp add: Range_containsPosition_def Position_isAfter_irrefl)

lemma Range_not_containsPosition_end: "\<not> Range_containsPosition r (range_end r)"
  by (simp add: Range_containsPosition_def Position_isBefore_irrefl)

lemma Range_isIntersecting_self:
  "Range_isIntersecting r r \<longleftrightarrow> Position_isBefore (range_start r) (range_end r)"
  by (auto simp: Range_isIntersecting_def Position_isBefore_isAfter)

section \<open>Properties of \<open>createFromRanges\<close>\<close>

lemma glueBefore_error_aux:
  "glueBefore t rs i res = Inl TypeError \<or> (\<exists>r. glueBefore t rs i res = Inr r)"
proof (induction t rs i res rule: glueBefore.induct)
  case (1 isTouching ranges i result)
  show ?case
  proof (cases "0 \<le> i \<and> nat i < length ranges \<and>
      isTouching (range_end (ranges ! nat i)) (range_start result)")
    case True
    then show ?thesis
      using "1.IH" by (subst (1 2) glueBefore.simps) simp
  next
    case False
    then show ?thesis
      by (subst (1 2) glueBefore.simps) auto
  qed
qed

lemma glueBefore_error: "glueBefore t rs i res = Inl e \<Longrightarrow> e = TypeError"
  using glueBefore_error_aux [of t rs i res] by auto


lemma Range_createFromRanges_nonempty:
  assumes "ranges \<noteq> []"
  shows "Range_createFromRanges engineSort isTouching ranges \<noteq>
      Inl (CKEditorError ''range-create-from-ranges-empty-array'')"
proof (cases "length ranges = 1")
  case True
  then show ?thesis by (simp add: Range_createFromRanges_def)
next
  case False
  define sorted where "sorted = engineSort
               (\<lambda>a b. Position_isAfter (range_start (snd a)) (range_start (snd b)))
               (zip [0 ..< length ranges] ranges)"
  define g where "g = glueBefore isTouching (map snd sorted)
      (Array_indexOf (map fst sorted) 0 - 1)
      (new_Range (range_start (ranges ! 0)) (Some (range_end (ranges ! 0))))"
  have eq: "Range_createFromRanges engineSort isTouching ranges =
      (case g of Inl e \<Rightarrow> Inl e
       | Inr result' \<Rightarrow> Inr (glueAfter isTouching (map snd sorted)
           (Array_indexOf (map fst sorted) 0 + 1) result'))"
    using assms False unfolding Range_createFromRanges_def Let_def g_def sorted_def
    by simp
  show ?thesis
  proof (cases g)
    case (Inl e)
    then have "e = TypeError" unfolding g_def by (rule glueBefore_error)
    with Inl eq show ?thesis by simp
  next
    case (Inr r)
    with eq show ?thesis by simp
  qed
qed

lemma comparePaths_trans:
  "comparePaths xs ys = Before \<Longrightarrow> comparePaths ys zs = Before \<Longrightarrow> comparePaths xs zs = Before"
proof (induction xs ys arbitrary: zs rule: comparePaths.induct)
  case 1
  then show ?case by simp
next
  case (2 b bs)
  from "2.prems"(2) show ?case by (cases zs) simp_all
next
  case (3 a as)
  from "3.prems"(1) show ?case by simp
next
  case (4 a as b bs)
  show ?case
  proof (cases zs)
    case Nil
    with "4.prems"(2) show ?thesis by simp
  next
    case (Cons c cs)
    have ab: "a < b \<or> (a = b \<and> comparePaths as bs = Before)"
      using "4.prems"(1) by (simp split: if_splits)
    have bc: "b < c \<or> (b = c \<and> comparePaths bs cs = Before)"
      using "4.prems"(2) Cons by (simp split: if_splits)
    show ?thesis
    proof (cases "a < c")
      case True
      with Cons show ?thesis by simp
    next
      case False
      with ab bc have e: "a = b" "b = c" and 1: "comparePaths as bs = Before"
        and 2: "comparePaths bs cs = Before"
        by auto
      have "comparePaths as cs = Before"
        using "4.IH" [of cs] e 1 2 by simp
      with e Cons show ?thesis by simp
    qed
  qed
qed

lemma Position_isBefore_trans:
  "Position_isBefore p q \<Longrightarrow> Position_isBefore q r \<Longrightarrow> Position_isBefore p r"
  by (auto simp: Position_isBefore_def Position_compareWith_def split: if_splits
      intro: comparePaths_trans)

lemma Position_isBefore_not_isAfter: "Position_isBefore p q \<Longrightarrow> \<not> Position_isAfter p q"
  by (simp add: Position_isBefore_def Position_isAfter_def)

lemma glueBefore_stop:
  "0 \<le> i \<Longrightarrow> nat i < length rs \<Longrightarrow> \<not> t (range_end (rs ! nat i)) (range_start res)
    \<Longrightarrow> glueBefore t rs i res = Inr res"
  by (subst glueBefore.simps) simp

lemma glueBefore_step:
  "0 \<le> i \<Longrightarrow> nat i < length rs \<Longrightarrow> t (range_end (rs ! nat i)) (range_start res)
    \<Longrightarrow> glueBefore t rs i res = glueBefore t rs (i + 1)
         (res\<lparr>range_start := Position_createFromPosition (range_start (rs ! nat i))\<rparr>)"
  by (subst glueBefore.simps) simp

lemma glueBefore_neg: "i < 0 \<Longrightarrow> glueBefore t rs i res = Inr res"
  by (subst glueBefore.simps) simp

lemma glueBefore_over: "0 \<le> i \<Longrightarrow> length rs \<le> nat i \<Longrightarrow> glueBefore t rs i res = Inl TypeError"
  by (subst glueBefore.simps) simp

lemma glueAfter_done: "int (length rs) \<le> i \<Longrightarrow> glueAfter t rs i res = res"
  by (subst glueAfter.simps) simp

lemma glueAfter_stop:
  "0 \<le> i \<Longrightarrow> nat i < length rs \<Longrightarrow> \<not> t (range_start (rs ! nat i)) (range_end res)
    \<Longrightarrow> glueAfter t rs i res = res"
  by (subst glueAfter.simps) simp

lemma glueAfter_step:
  "0 \<le> i \<Longrightarrow> nat i < length rs \<Longrightarrow> t (range_start (rs ! nat i)) (range_end res)
    \<Longrightarrow> glueAfter t rs i res = glueAfter t rs (i + 1)
         (res\<lparr>range_end := Position_createFromPosition (range_end (rs ! nat i))\<rparr>)"
  by (subst glueAfter.simps) auto


lemma Array_indexOf_upt: "0 < n \<Longrightarrow> Array_indexOf [0..<n] 0 = 0"
  by (simp add: upt_conv_Cons)

lemma Range_createFromRanges_as_passed:
  assumes "2 \<le> length ranges"
  shows "Range_createFromRanges (\<lambda>comparefn array. array) isTouching ranges =
         Inr (glueAfter isTouching ranges 1 (ranges ! 0))"
proof -
  from assms have len: "length ranges \<noteq> 0" "length ranges \<noteq> 1" "0 < length ranges"
    by auto
  have fsts: "map fst (zip [0..<length ranges] ranges) = [0..<length ranges]"
    by simp
  have snds: "map snd (zip [0..<length ranges] ranges) = ranges"
    by simp
  have idx: "Array_indexOf [0..<length ranges] 0 = 0"
    using len(3) by (rule Array_indexOf_upt)
  have res: "new_Range (range_start (ranges ! 0)) (Some (range_end (ranges ! 0))) = ranges ! 0"
    by (simp add: new_Range_def Position_createFromPosition_id)
  have before: "glueBefore isTouching ranges (- 1) (ranges ! 0) = Inr (ranges ! 0)"
    by (rule glueBefore_neg) simp
  have "Range_createFromRanges (\<lambda>comparefn array. array) isTouching ranges =
      (case glueBefore isTouching ranges (0 - 1) (ranges ! 0) of
         Inl e \<Rightarrow> Inl e
       | Inr result' \<Rightarrow> Inr (glueAfter isTouching ranges (0 + 1) result'))"
    unfolding Range_createFromRanges_def Let_def fsts snds idx res
    using len(1,2) by (simp only: if_False)
  then show ?thesis by (simp add: before)
qed

section \<open>Properties of the move operations\<close>

lemma childrenAt_updateChildrenAt:
  "childrenAt children p = Some cs \<Longrightarrow> childrenAt (updateChildrenAt children p f) p = Some (f cs)"
proof (induction children p arbitrary: cs rule: childrenAt.induct)
  case (1 children)
  then show ?case by simp
next
  case (2 children i rest)
  show ?case
  proof (cases "i < length children")
    case True
    obtain name inner where n: "children ! i = ModelNode name inner" by (cases "children ! i")
    from "2.prems" True n have "childrenAt inner rest = Some cs" by simp
    from "2.IH" [OF True n this] show ?thesis using True n by simp
  next
    case False
    with "2.prems" show ?thesis by simp
  qed
qed

lemma updateChildrenAt_twice:
  "updateChildrenAt (updateChildrenAt children p f) p g = updateChildrenAt children p (\<lambda>cs. g (f cs))"
proof (induction children p f rule: updateChildrenAt.induct)
  case (1 children f)
  show ?case by simp
next
  case (2 children i rest f)
  show ?case
  proof (cases "i < length children")
    case True
    obtain name inner where n: "children ! i = ModelNode name inner" by (cases "children ! i")
    from "2.IH" [OF True n] show ?thesis using True n by simp
  next
    case False
    then show ?thesis by simp
  qed
qed

lemma updateChildrenAt_same:
  "childrenAt children p = Some cs \<Longrightarrow> f cs = cs \<Longrightarrow> updateChildrenAt children p f = children"
proof (induction children p arbitrary: cs rule: childrenAt.induct)
  case (1 children)
  then show ?case by simp
next
  case (2 children i rest)
  show ?case
  proof (cases "i < length children")
    case True
    obtain name inner where n: "children ! i = ModelNode name inner" by (cases "children ! i")
    from "2.prems" True n have "childrenAt inner rest = Some cs" by simp
    from "2.IH" [OF True n this "2.prems"(2)] show ?thesis using True n
      by (simp add: list_update_same_conv)
  next
    case False
    then show ?thesis by simp
  qed
qed


lemma detachNodes_SomeE:
  assumes "detachNodes doc p n = Some (nodes, doc')"
  obtains cs where "childrenAt (doc (root p)) (Position_getParentPath p) = Some cs"
    and "Position_offset p + n \<le> length cs"
    and "nodes = take n (drop (Position_offset p) cs)"
    and "doc' = doc(root p := updateChildrenAt (doc (root p)) (Position_getParentPath p)
                  (\<lambda>cs. take (Position_offset p) cs @ drop (Position_offset p + n) cs))"
  using assms unfolding detachNodes_def by (auto split: option.splits if_splits)

lemma attachNodes_SomeE:
  assumes "attachNodes doc p nodes = Some doc'"
  obtains cs where "childrenAt (doc (root p)) (Position_getParentPath p) = Some cs"
    and "Position_offset p \<le> length cs"
    and "doc' = doc(root p := updateChildrenAt (doc (root p)) (Position_getParentPath p)
                  (\<lambda>cs. take (Position_offset p) cs @ nodes @ drop (Position_offset p) cs))"
  using assms unfolding attachNodes_def by (auto split: option.splits if_splits)

lemma MoveOperation_execute_other_root:
  assumes "root (targetPosition this) \<noteq> root (sourcePosition this)"
  shows "MoveOperation_execute doc this =
         (case detachNodes doc (sourcePosition this) (howMany this) of
            None \<Rightarrow> None
          | Some (nodes, doc') \<Rightarrow> attachNodes doc' (targetPosition this) nodes)"
proof -
  from assms have "Position_getTransformedByDeletion (targetPosition this) (sourcePosition this)
      (howMany this) = targetPosition this"
    by (simp add: Position_getTransformedByDeletion_def)
  moreover from assms have
    "\<not> isInMovedNodes (targetPosition this) (sourcePosition this) (howMany this)"
    by (simp add: isInMovedNodes_def)
  ultimately show ?thesis by (simp add: MoveOperation_execute_def split: option.splits)
qed

lemma reinsert_then_remove:
  assumes exec: "MoveOperation_execute doc this = Some doc'"
    and src: "root (sourcePosition this) = graveyard"
    and tgt: "root (targetPosition this) \<noteq> graveyard"
  shows "detachNodes doc' (targetPosition this) (howMany this) =
         (case detachNodes doc (sourcePosition this) (howMany this) of
            None \<Rightarrow> None | Some (nodes, doc1) \<Rightarrow> Some (nodes, doc1))"
proof -
  let ?s = "sourcePosition this" and ?t = "targetPosition this" and ?n = "howMany this"
  from tgt src have diff: "root ?t \<noteq> root ?s" by simp
  from exec obtain nodes doc1 where
    det: "detachNodes doc ?s ?n = Some (nodes, doc1)" and att: "attachNodes doc1 ?t nodes = Some doc'"
    unfolding MoveOperation_execute_other_root [OF diff] by (auto split: option.splits)
  from det obtain cs where
    cs: "childrenAt (doc (root ?s)) (Position_getParentPath ?s) = Some cs"
    and le: "Position_offset ?s + ?n \<le> length cs"
    and nodes: "nodes = take ?n (drop (Position_offset ?s) cs)"
    and doc1: "doc1 = doc(root ?s := updateChildrenAt (doc (root ?s)) (Position_getParentPath ?s)
                  (\<lambda>cs. take (Position_offset ?s) cs @ drop (Position_offset ?s + ?n) cs))"
    by (rule detachNodes_SomeE)
  from att obtain ct where
    ct: "childrenAt (doc1 (root ?t)) (Position_getParentPath ?t) = Some ct"
    and le_t: "Position_offset ?t \<le> length ct"
    and doc': "doc' = doc1(root ?t := updateChildrenAt (doc1 (root ?t)) (Position_getParentPath ?t)
                  (\<lambda>cs. take (Position_offset ?t) cs @ nodes @ drop (Position_offset ?t) cs))"
    by (rule attachNodes_SomeE)
  have len: "length nodes = ?n" using le nodes by simp
  let ?ins = "\<lambda>cs. take (Position_offset ?t) cs @ nodes @ drop (Position_offset ?t) cs"
  let ?rem = "\<lambda>cs. take (Position_offset ?t) cs @ drop (Position_offset ?t + ?n) cs"
  have at': "childrenAt (doc' (root ?t)) (Position_getParentPath ?t) = Some (?ins ct)"
    unfolding doc' using childrenAt_updateChildrenAt [OF ct] by simp
  have taken: "take ?n (drop (Position_offset ?t) (?ins ct)) = nodes"
    using le_t len by simp
  have rem_ins: "?rem (?ins ct) = ct"
    using le_t len by simp
  have restored: "updateChildrenAt (doc' (root ?t)) (Position_getParentPath ?t) ?rem = doc1 (root ?t)"
  proof -
    have "updateChildrenAt (doc' (root ?t)) (Position_getParentPath ?t) ?rem =
          updateChildrenAt (doc1 (root ?t)) (Position_getParentPath ?t) (\<lambda>cs. ?rem (?ins cs))"
      unfolding doc' by (simp add: updateChildrenAt_twice)
    also have "\<dots> = doc1 (root ?t)"
      using ct rem_ins by (rule updateChildrenAt_same)
    finally show ?thesis .
  qed
  have "doc'(root ?t := doc1 (root ?t)) = doc1"
    unfolding doc' by simp
  with at' taken restored le_t len have
    "detachNodes doc' ?t ?n = Some (nodes, doc1)"
    unfolding detachNodes_def by simp
  with det show ?thesis by simp
qed

lemma detach_then_attach:
  assumes det: "detachNodes doc p n = Some (nodes, doc1)"
  shows "attachNodes doc1 p nodes = Some doc"
proof -
  from det obtain cs where
    cs: "childrenAt (doc (root p)) (Position_getParentPath p) = Some cs"
    and le: "Position_offset p + n \<le> length cs"
    and nodes: "nodes = take n (drop (Position_offset p) cs)"
    and doc1: "doc1 = doc(root p := updateChildrenAt (doc (root p)) (Position_getParentPath p)
                  (\<lambda>cs. take (Position_offset p) cs @ drop (Position_offset p + n) cs))"
    by (rule detachNodes_SomeE)
  let ?rem = "\<lambda>cs. take (Position_offset p) cs @ drop (Position_offset p + n) cs"
  let ?ins = "\<lambda>cs. take (Position_offset p) cs @ nodes @ drop (Position_offset p) cs"
  have at1: "childrenAt (doc1 (root p)) (Position_getParentPath p) = Some (?rem cs)"
    unfolding doc1 using childrenAt_updateChildrenAt [OF cs] by simp
  have le1: "Position_offset p \<le> length (?rem cs)" using le by simp
  have "take (Position_offset p) cs @ take n (drop (Position_offset p) cs) @
        drop (Position_offset p + n) cs = cs"
    by (metis add.commute append_take_drop_id drop_drop)
  then have ins_rem: "?ins (?rem cs) = cs" using le nodes by simp
  have "updateChildrenAt (doc1 (root p)) (Position_getParentPath p) ?ins =
        updateChildrenAt (doc (root p)) (Position_getParentPath p) (\<lambda>cs. ?ins (?rem cs))"
    unfolding doc1 by (simp add: updateChildrenAt_twice)
  also have "\<dots> = doc (root p)"
    using cs ins_rem by (rule updateChildrenAt_same)
  finally have restored:
    "updateChildrenAt (doc1 (root p)) (Position_getParentPath p) ?ins = doc (root p)" .
  have "doc1(root p := doc (root p)) = doc" unfolding doc1 by simp
  with at1 le1 restored show ?thesis unfolding attachNodes_def by simp
qed

lemma ReinsertOperation_reversed_undoes:
  assumes exec: "MoveOperation_execute doc this = Some doc'"
    and src: "root (sourcePosition this) = graveyard"
    and tgt: "root (targetPosition this) \<noteq> graveyard"
  shows "MoveOperation_execute doc'
           \<lparr>baseVersion = baseVersion this + 1, sourcePosition = targetPosition this,
            howMany = howMany this, targetPosition = new_Position graveyard graveyardPath\<rparr> = Some doc''
         \<Longrightarrow> r \<noteq> graveyard \<Longrightarrow> doc'' r = doc r"
    and "graveyardPath = path (sourcePosition this) \<Longrightarrow>
         MoveOperation_execute doc'
           \<lparr>baseVersion = baseVersion this + 1, sourcePosition = targetPosition this,
            howMany = howMany this, targetPosition = new_Position graveyard graveyardPath\<rparr> = Some doc"
proof -
  let ?s = "sourcePosition this" and ?t = "targetPosition this" and ?n = "howMany this"
  let ?rev = "\<lparr>baseVersion = baseVersion this + 1, sourcePosition = targetPosition this,
            howMany = howMany this, targetPosition = new_Position graveyard graveyardPath\<rparr>"
  from tgt src have diff: "root ?t \<noteq> root ?s" by simp
  from exec obtain nodes doc1 where
    det: "detachNodes doc ?s ?n = Some (nodes, doc1)" and att: "attachNodes doc1 ?t nodes = Some doc'"
    unfolding MoveOperation_execute_other_root [OF diff] by (auto split: option.splits)
  have det': "detachNodes doc' ?t ?n = Some (nodes, doc1)"
    using reinsert_then_remove [OF exec src tgt] det by simp
  have diff': "root (targetPosition ?rev) \<noteq> root (sourcePosition ?rev)"
    using tgt by (simp add: new_Position_def)
  have rev: "MoveOperation_execute doc' ?rev =
             attachNodes doc1 (new_Position graveyard graveyardPath) nodes"
    unfolding MoveOperation_execute_other_root [OF diff'] using det' by simp
  from det obtain cs where
    doc1: "doc1 = doc(root ?s := updateChildrenAt (doc (root ?s)) (Position_getParentPath ?s)
                  (\<lambda>cs. take (Position_offset ?s) cs @ drop (Position_offset ?s + ?n) cs))"
    by (rule detachNodes_SomeE)
  show "doc'' r = doc r"
    if "MoveOperation_execute doc' ?rev = Some doc''" and "r \<noteq> graveyard"
  proof -
    from that(1) rev have "attachNodes doc1 (new_Position graveyard graveyardPath) nodes = Some doc''"
      by simp
    then obtain cg where "doc'' = doc1(root (new_Position graveyard graveyardPath) :=
        updateChildrenAt (doc1 (root (new_Position graveyard graveyardPath)))
          (Position_getParentPath (new_Position graveyard graveyardPath))
          (\<lambda>cs. take (Position_offset (new_Position graveyard graveyardPath)) cs @ nodes @
                drop (Position_offset (new_Position graveyard graveyardPath)) cs))"
      by (rule attachNodes_SomeE)
    then show ?thesis using that(2) src doc1 by (simp add: new_Position_def)
  qed
  show "MoveOperation_execute doc' ?rev = Some doc" if "graveyardPath = path ?s"
  proof -
    from that src have "new_Position graveyard graveyardPath = ?s"
      by (simp add: new_Position_def)
    with rev detach_then_attach [OF det] show ?thesis by simp
  qed
qed

section \<open>Properties of \<open>ChangeOperation\<close>\<close>

lemma removeOrChange_change:
  "removeOrChange a (Some b) nodes store =
     (if \<forall>n \<in> set nodes. Node_hasAttr (store n) a then (None, store)
      else (Some (CKEditorError ''operation-change-no-attr-to-remove''), store))"
  by (induction nodes) auto

lemma insertOrChange_change:
  "insertOrChange (Some a) b nodes store =
     (None, \<lambda>n. if n \<in> set nodes then Node_setAttr (store n) b else store n)"
proof (induction nodes arbitrary: store)
  case Nil
  show ?case by simp
next
  case (Cons node nodes)
  show ?case
    by (simp add: Cons.IH) (auto simp: fun_eq_iff Node_setAttr_def)
qed

lemma removeOrChange_remove_prefix:
  assumes "distinct pre" and "\<forall>n \<in> set pre. Node_hasAttr (store n) a"
  shows "removeOrChange a None (pre @ rest) store =
     removeOrChange a None rest
       (\<lambda>n. if n \<in> set pre then Node_removeAttr (store n) (attr_key a) else store n)"
  using assms
proof (induction pre arbitrary: store)
  case Nil
  show ?case by simp
next
  case (Cons node pre)
  let ?store1 = "store(node := Node_removeAttr (store node) (attr_key a))"
  have 1: "\<forall>n \<in> set pre. Node_hasAttr (?store1 n) a"
    using Cons.prems by auto
  have 2: "(\<lambda>n. if n \<in> set pre then Node_removeAttr (?store1 n) (attr_key a) else ?store1 n) =
      (\<lambda>n. if n \<in> set (node # pre) then Node_removeAttr (store n) (attr_key a) else store n)"
    using Cons.prems by (auto simp: fun_eq_iff)
  have d: "distinct pre"
    using Cons.prems by simp
  have "removeOrChange a None ((node # pre) @ rest) store =
      removeOrChange a None (pre @ rest) ?store1"
    using Cons.prems by simp
  also have "\<dots> = removeOrChange a None rest
      (\<lambda>n. if n \<in> set pre then Node_removeAttr (?store1 n) (attr_key a) else ?store1 n)"
    by (rule Cons.IH [OF d 1])
  finally show ?case
    by (simp only: 2)
qed

lemma insertOrChange_insert_prefix:
  assumes "distinct pre" and "\<forall>n \<in> set pre. \<not> Node_hasAttrKey (store n) (attr_key b)"
  shows "insertOrChange None b (pre @ rest) store =
     insertOrChange None b rest
       (\<lambda>n. if n \<in> set pre then Node_setAttr (store n) b else store n)"
  using assms
proof (induction pre arbitrary: store)
  case Nil
  show ?case by simp
next
  case (Cons node pre)
  let ?store1 = "store(node := Node_setAttr (store node) b)"
  have 1: "\<forall>n \<in> set pre. \<not> Node_hasAttrKey (?store1 n) (attr_key b)"
    using Cons.prems by auto
  have 2: "(\<lambda>n. if n \<in> set pre then Node_setAttr (?store1 n) b else ?store1 n) =
      (\<lambda>n. if n \<in> set (node # pre) then Node_setAttr (store n) b else store n)"
    using Cons.prems by (auto simp: fun_eq_iff)
  have d: "distinct pre"
    using Cons.prems by simp
  have "insertOrChange None b ((node # pre) @ rest) store =
      insertOrChange None b (pre @ rest) ?store1"
    using Cons.prems by simp
  also have "\<dots> = insertOrChange None b rest
      (\<lambda>n. if n \<in> set pre then Node_setAttr (?store1 n) b else ?store1 n)"
    by (rule Cons.IH [OF d 1])
  finally show ?case
    by (simp only: 2)
qed

lemma removeOrChange_remove_ok:
  "removeOrChange a None nodes store = (None, store') \<Longrightarrow>
     distinct nodes \<and> (\<forall>n \<in> set nodes. Node_hasAttr (store n) a) \<and>
     store' = (\<lambda>n. if n \<in> set nodes then Node_removeAttr (store n) (attr_key a) else store n)"
proof (induction nodes arbitrary: store)
  case Nil
  then show ?case by simp
next
  case (Cons node nodes)
  let ?store1 = "store(node := Node_removeAttr (store node) (attr_key a))"
  from Cons.prems have h: "Node_hasAttr (store node) a"
    and r: "removeOrChange a None nodes ?store1 = (None, store')"
    by (auto split: if_splits)
  from Cons.IH [OF r] have d: "distinct nodes"
    and all: "\<forall>n \<in> set nodes. Node_hasAttr (?store1 n) a"
    and s: "store' = (\<lambda>n. if n \<in> set nodes then Node_removeAttr (?store1 n) (attr_key a) else ?store1 n)"
    by auto
  have notin: "node \<notin> set nodes"
    using all h by (auto simp: Node_hasAttr_def Node_removeAttr_def)
  have all': "\<forall>n \<in> set (node # nodes). Node_hasAttr (store n) a"
  proof
    fix n assume n: "n \<in> set (node # nodes)"
    show "Node_hasAttr (store n) a"
    proof (cases "n = node")
      case True
      with h show ?thesis by simp
    next
      case False
      with n have "n \<in> set nodes" by simp
      from bspec [OF all this] False show ?thesis by simp
    qed
  qed
  have s': "store' = (\<lambda>n. if n \<in> set (node # nodes)
      then Node_removeAttr (store n) (attr_key a) else store n)"
    unfolding s using notin by (auto simp: fun_eq_iff)
  show ?case
    using d notin all' s' by simp
qed

lemma insertOrChange_insert_ok:
  "insertOrChange None b nodes store = (None, store') \<Longrightarrow>
     distinct nodes \<and> (\<forall>n \<in> set nodes. \<not> Node_hasAttrKey (store n) (attr_key b)) \<and>
     store' = (\<lambda>n. if n \<in> set nodes then Node_setAttr (store n) b else store n)"
proof (induction nodes arbitrary: store)
  case Nil
  then show ?case by simp
next
  case (Cons node nodes)
  let ?store1 = "store(node := Node_setAttr (store node) b)"
  from Cons.prems have h: "\<not> Node_hasAttrKey (store node) (attr_key b)"
    and r: "insertOrChange None b nodes ?store1 = (None, store')"
    by (auto split: if_splits)
  from Cons.IH [OF r] have d: "distinct nodes"
    and all: "\<forall>n \<in> set nodes. \<not> Node_hasAttrKey (?store1 n) (attr_key b)"
    and s: "store' = (\<lambda>n. if n \<in> set nodes then Node_setAttr (?store1 n) b else ?store1 n)"
    by auto
  have notin: "node \<notin> set nodes"
    using all by (auto simp: Node_hasAttrKey_def Node_setAttr_def)
  have all': "\<forall>n \<in> set (node # nodes). \<not> Node_hasAttrKey (store n) (attr_key b)"
  proof
    fix n assume n: "n \<in> set (node # nodes)"
    show "\<not> Node_hasAttrKey (store n) (attr_key b)"
    proof (cases "n = node")
      case True
      with h show ?thesis by simp
    next
      case False
      with n have "n \<in> set nodes" by simp
      from bspec [OF all this] False show ?thesis by simp
    qed
  qed
  have s': "store' = (\<lambda>n. if n \<in> set (node # nodes)
      then Node_setAttr (store n) b else store n)"
    unfolding s using notin by (auto simp: fun_eq_iff)
  show ?case
    using d notin all' s' by simp
qed


lemma ChangeOperation_execute_change_failure:
  assumes "oldAttr c = Some a" and "newAttr c = Some b"
    and "fst (ChangeOperation_execute nodesOf c store) \<noteq> None"
  shows "snd (ChangeOperation_execute nodesOf c store) = store"
  using assms
  by (auto simp: ChangeOperation_execute_def removeOrChange_change insertOrChange_change
      split: if_splits)

lemma ChangeOperation_execute_remove_failure:
  assumes "oldAttr c = Some a" and "newAttr c = None"
    and "nodesOf (operation_range c) = pre @ bad # post"
    and "distinct pre" and "\<forall>n \<in> set pre. Node_hasAttr (store n) a"
    and "\<not> Node_hasAttr (store bad) a"
  shows "ChangeOperation_execute nodesOf c store =
     (Some (CKEditorError ''operation-change-no-attr-to-remove''),
      \<lambda>n. if n \<in> set pre then Node_removeAttr (store n) (attr_key a) else store n)"
proof -
  have "bad \<notin> set pre"
    using assms(5,6) by auto
  then show ?thesis
    using assms
    by (simp add: ChangeOperation_execute_def differentKeys_def
        removeOrChange_remove_prefix)
qed

lemma ChangeOperation_execute_insert_failure:
  assumes "oldAttr c = None" and "newAttr c = Some b"
    and "nodesOf (operation_range c) = pre @ bad # post"
    and "distinct pre" and "\<forall>n \<in> set pre. \<not> Node_hasAttrKey (store n) (attr_key b)"
    and "Node_hasAttrKey (store bad) (attr_key b)"
  shows "ChangeOperation_execute nodesOf c store =
     (Some (CKEditorError ''operation-change-attr-exists''),
      \<lambda>n. if n \<in> set pre then Node_setAttr (store n) b else store n)"
proof -
  have "bad \<notin> set pre"
    using assms(5,6) by auto
  then show ?thesis
    using assms
    by (simp add: ChangeOperation_execute_def differentKeys_def
        insertOrChange_insert_prefix)
qed

lemma ChangeOperation_getReversed_undoes:
  assumes ok: "ChangeOperation_execute nodesOf c store = (None, store')"
  shows "ChangeOperation_execute nodesOf (ChangeOperation_getReversed c) store' = (None, store)"
proof (cases "oldAttr c")
  case None
  note old = None
  show ?thesis
  proof (cases "newAttr c")
    case None
    with old ok show ?thesis
      by (simp add: ChangeOperation_execute_def ChangeOperation_getReversed_def
          differentKeys_def)
  next
    case (Some b)
    from ok old Some have "insertOrChange None b (nodesOf (operation_range c)) store = (None, store')"
      by (simp add: ChangeOperation_execute_def differentKeys_def)
    from insertOrChange_insert_ok [OF this]
    have d: "distinct (nodesOf (operation_range c))"
      and all: "\<forall>n \<in> set (nodesOf (operation_range c)). \<not> Node_hasAttrKey (store n) (attr_key b)"
      and s: "store' = (\<lambda>n. if n \<in> set (nodesOf (operation_range c))
          then Node_setAttr (store n) b else store n)"
      by auto
    have all': "\<forall>n \<in> set (nodesOf (operation_range c)). Node_hasAttr (store' n) b"
      unfolding s by (simp add: Node_hasAttr_def Node_setAttr_def)
    have restored: "(\<lambda>n. if n \<in> set (nodesOf (operation_range c))
          then Node_removeAttr (store' n) (attr_key b) else store' n) = store"
      unfolding s using all
      by (auto simp: fun_eq_iff Node_hasAttrKey_def Node_setAttr_def Node_removeAttr_def)
    have "removeOrChange b None (nodesOf (operation_range c) @ []) store' = (None, store)"
      using removeOrChange_remove_prefix [OF d all', of "[]"] restored by simp
    with old Some show ?thesis
      by (simp add: ChangeOperation_execute_def ChangeOperation_getReversed_def
          differentKeys_def)
  qed
next
  case (Some a)
  note old = Some
  show ?thesis
  proof (cases "newAttr c")
    case None
    from ok old None have "removeOrChange a None (nodesOf (operation_range c)) store = (None, store')"
      by (simp add: ChangeOperation_execute_def differentKeys_def split: prod.splits option.splits)
    from removeOrChange_remove_ok [OF this]
    have d: "distinct (nodesOf (operation_range c))"
      and all: "\<forall>n \<in> set (nodesOf (operation_range c)). Node_hasAttr (store n) a"
      and s: "store' = (\<lambda>n. if n \<in> set (nodesOf (operation_range c))
          then Node_removeAttr (store n) (attr_key a) else store n)"
      by auto
    have all': "\<forall>n \<in> set (nodesOf (operation_range c)). \<not> Node_hasAttrKey (store' n) (attr_key a)"
      unfolding s by (simp add: Node_hasAttrKey_def Node_removeAttr_def)
    have restored: "(\<lambda>n. if n \<in> set (nodesOf (operation_range c))
          then Node_setAttr (store' n) a else store' n) = store"
      unfolding s using all
      by (auto simp: fun_eq_iff Node_hasAttr_def Node_setAttr_def Node_removeAttr_def)
    have "insertOrChange None a (nodesOf (operation_range c) @ []) store' = (None, store)"
      using insertOrChange_insert_prefix [OF d all', of "[]"] restored by simp
    with old None show ?thesis
      by (simp add: ChangeOperation_execute_def ChangeOperation_getReversed_def
          differentKeys_def)
  next
    case (Some b)
    from ok old Some have k: "attr_key a = attr_key b"
      by (auto simp: ChangeOperation_execute_def differentKeys_def split: if_splits)
    from ok old Some k
    have all: "\<forall>n \<in> set (nodesOf (operation_range c)). Node_hasAttr (store n) a"
      and s: "store' = (\<lambda>n. if n \<in> set (nodesOf (operation_range c))
          then Node_setAttr (store n) b else store n)"
      by (auto simp: ChangeOperation_execute_def differentKeys_def removeOrChange_change
          insertOrChange_change split: if_splits)
    have all': "\<forall>n \<in> set (nodesOf (operation_range c)). Node_hasAttr (store' n) b"
      unfolding s by (simp add: Node_hasAttr_def Node_setAttr_def)
    have restored: "(\<lambda>n. if n \<in> set (nodesOf (operation_range c))
          then Node_setAttr (store' n) a else store' n) = store"
      unfolding s using all k
      by (auto simp: fun_eq_iff Node_hasAttr_def Node_setAttr_def)
    show ?thesis
      using old Some k all' restored
      by (simp add: ChangeOperation_execute_def ChangeOperation_getReversed_def
          differentKeys_def removeOrChange_change insertOrChange_change)
  qed
qed

section \<open>Properties of \<open>LiveSelection\<close>\<close>

lemma priv_setAttribute_low_keeps:
  assumes "sel_attributePriority this key = Some Normal"
  shows "sel_attributePriority (snd (priv_setAttribute k v False this)) key = Some Normal \<and>
     map_of (sel_attrs (snd (priv_setAttribute k v False this))) key = map_of (sel_attrs this) key"
  using assms by (cases "k = key") (simp_all add: priv_setAttribute_def update_conv')

lemma priv_removeAttribute_low_keeps:
  assumes "sel_attributePriority this key = Some Normal"
  shows "sel_attributePriority (snd (priv_removeAttribute k False this)) key = Some Normal \<and>
     map_of (sel_attrs (snd (priv_removeAttribute k False this))) key = map_of (sel_attrs this) key"
  using assms by (cases "k = key") (simp_all add: priv_removeAttribute_def delete_conv')

lemma removeOtherAttributes_low_keeps:
  assumes "sel_attributePriority this key = Some Normal"
  shows "sel_attributePriority (snd (removeOtherAttributes attrs False entries (changed, this))) key
       = Some Normal \<and>
     map_of (sel_attrs (snd (removeOtherAttributes attrs False entries (changed, this)))) key
       = map_of (sel_attrs this) key"
  using assms
proof (induction entries arbitrary: changed this)
  case Nil
  then show ?case by simp
next
  case (Cons entry entries)
  obtain oldKey oldValue where entry: "entry = (oldKey, oldValue)"
    by (cases entry)
  obtain r this' where step: "priv_removeAttribute oldKey False this = (r, this')"
    by (cases "priv_removeAttribute oldKey False this")
  have keep: "sel_attributePriority this' key = Some Normal"
    "map_of (sel_attrs this') key = map_of (sel_attrs this) key"
    using priv_removeAttribute_low_keeps [OF Cons.prems, of oldKey] step by simp_all
  show ?case
  proof (cases "map_of attrs oldKey = Some oldValue")
    case True
    with entry Cons.IH [OF Cons.prems] show ?thesis by simp
  next
    case False
    with entry step keep Cons.IH [OF keep(1)] show ?thesis
      by (cases r) simp_all
  qed
qed

lemma setAttributes_low_keeps:
  assumes "sel_attributePriority this key = Some Normal"
  shows "sel_attributePriority (snd (setAttributes False entries (changed, this))) key
       = Some Normal \<and>
     map_of (sel_attrs (snd (setAttributes False entries (changed, this)))) key
       = map_of (sel_attrs this) key"
  using assms
proof (induction entries arbitrary: changed this)
  case Nil
  then show ?case by simp
next
  case (Cons entry entries)
  obtain k v where entry: "entry = (k, v)"
    by (cases entry)
  obtain r this' where step: "priv_setAttribute k v False this = (r, this')"
    by (cases "priv_setAttribute k v False this")
  have keep: "sel_attributePriority this' key = Some Normal"
    "map_of (sel_attrs this') key = map_of (sel_attrs this) key"
    using priv_setAttribute_low_keeps [OF Cons.prems, of k v] step by simp_all
  from entry step keep Cons.IH [OF keep(1)] show ?case
    by (cases r) simp_all
qed

lemma priv_setAttributesTo_low_keeps:
  assumes "sel_attributePriority this key = Some Normal"
  shows "sel_attributePriority (snd (priv_setAttributesTo attrs False this)) key = Some Normal \<and>
     map_of (sel_attrs (snd (priv_setAttributesTo attrs False this))) key
       = map_of (sel_attrs this) key"
proof -
  obtain changed this' where
    1: "removeOtherAttributes attrs False (sel_attrs this) ([], this) = (changed, this')"
    by (cases "removeOtherAttributes attrs False (sel_attrs this) ([], this)")
  have keep: "sel_attributePriority this' key = Some Normal"
    "map_of (sel_attrs this') key = map_of (sel_attrs this) key"
    using removeOtherAttributes_low_keeps [OF assms, of attrs "sel_attrs this" "[]"] 1
    by simp_all
  show ?thesis
    using setAttributes_low_keeps [OF keep(1), of attrs changed] keep(2) 1
    by (simp add: priv_setAttributesTo_def)
qed

lemma map_of_filter_key:
  "map_of (filter (\<lambda>(k, v). P k) xs) key = (if P key then map_of xs key else None)"
  by (induction xs) auto

lemma priv_updateAttributes_low_keeps:
  assumes "sel_attributePriority this key = Some Normal"
  shows "sel_attributePriority (priv_updateAttributes doc False this) key = Some Normal \<and>
     map_of (sel_attrs (priv_updateAttributes doc False this)) key = map_of (sel_attrs this) key"
proof -
  define this1 where "this1 = this\<lparr>sel_attrs :=
                      filter (\<lambda>(key, v). sel_attributePriority this key \<noteq> Some Low)
                        (sel_attrs this),
                    sel_attributePriority :=
                      (\<lambda>key. if sel_attributePriority this key = Some Low then None
                              else sel_attributePriority this key)\<rparr>"
  have 1: "sel_attributePriority this1 key = Some Normal"
    using assms by (simp add: this1_def)
  have 2: "map_of (sel_attrs this1) key = map_of (sel_attrs this) key"
    using assms by (simp add: this1_def map_of_filter_key)
  show ?thesis
    using priv_setAttributesTo_low_keeps [OF 1] 2
    unfolding priv_updateAttributes_def Let_def this1_def [symmetric]
    by simp
qed


lemma priv_setAttribute_low_no_normal:
  assumes "\<forall>k. sel_attributePriority this k \<noteq> Some Normal"
  shows "\<forall>k. sel_attributePriority (snd (priv_setAttribute key v False this)) k \<noteq> Some Normal"
  using assms by (simp add: priv_setAttribute_def)

lemma priv_removeAttribute_low_no_normal:
  assumes "\<forall>k. sel_attributePriority this k \<noteq> Some Normal"
  shows "\<forall>k. sel_attributePriority (snd (priv_removeAttribute key False this)) k \<noteq> Some Normal"
  using assms by (simp add: priv_removeAttribute_def)

lemma removeOtherAttributes_low_no_normal:
  assumes "\<forall>k. sel_attributePriority this k \<noteq> Some Normal"
  shows "\<forall>k. sel_attributePriority
      (snd (removeOtherAttributes attrs False entries (changed, this))) k \<noteq> Some Normal"
  using assms
proof (induction entries arbitrary: changed this)
  case Nil
  then show ?case by simp
next
  case (Cons entry entries)
  obtain oldKey oldValue where entry: "entry = (oldKey, oldValue)"
    by (cases entry)
  obtain r this' where step: "priv_removeAttribute oldKey False this = (r, this')"
    by (cases "priv_removeAttribute oldKey False this")
  have keep: "\<forall>k. sel_attributePriority this' k \<noteq> Some Normal"
    using priv_removeAttribute_low_no_normal [OF Cons.prems, of oldKey] step by simp
  show ?case
  proof (cases "map_of attrs oldKey = Some oldValue")
    case True
    with entry Cons.IH [OF Cons.prems] show ?thesis by simp
  next
    case False
    with entry step Cons.IH [OF keep] show ?thesis
      by (cases r) simp_all
  qed
qed

lemma setAttributes_low_no_normal:
  assumes "\<forall>k. sel_attributePriority this k \<noteq> Some Normal"
  shows "\<forall>k. sel_attributePriority
      (snd (setAttributes False entries (changed, this))) k \<noteq> Some Normal"
  using assms
proof (induction entries arbitrary: changed this)
  case Nil
  then show ?case by simp
next
  case (Cons entry entries)
  obtain k v where entry: "entry = (k, v)"
    by (cases entry)
  obtain r this' where step: "priv_setAttribute k v False this = (r, this')"
    by (cases "priv_setAttribute k v False this")
  have keep: "\<forall>k. sel_attributePriority this' k \<noteq> Some Normal"
    using priv_setAttribute_low_no_normal [OF Cons.prems, of k v] step by simp
  from entry step Cons.IH [OF keep] show ?case
    by (cases r) simp_all
qed

lemma priv_updateAttributes_clearAll_no_normal:
  "sel_attributePriority (priv_updateAttributes doc True this) k \<noteq> Some Normal"
proof -
  define this1 where "this1 = this\<lparr>sel_attributePriority := Map.empty, sel_attrs := []\<rparr>"
  define attrs where "attrs = toMap (doc_surroundingAttributes doc (sel_ranges this))"
  have 1: "\<forall>k. sel_attributePriority this1 k \<noteq> Some Normal"
    by (simp add: this1_def)
  obtain changed this' where
    2: "removeOtherAttributes attrs False (sel_attrs this1) ([], this1) = (changed, this')"
    by (cases "removeOtherAttributes attrs False (sel_attrs this1) ([], this1)")
  have 3: "\<forall>k. sel_attributePriority this' k \<noteq> Some Normal"
    using removeOtherAttributes_low_no_normal [OF 1, of attrs "sel_attrs this1" "[]"] 2
    by simp
  have "\<forall>k. sel_attributePriority (snd (priv_setAttributesTo attrs False this1)) k \<noteq> Some Normal"
    using setAttributes_low_no_normal [OF 3, of attrs changed] 2
    by (simp add: priv_setAttributesTo_def)
  then show ?thesis
    unfolding priv_updateAttributes_def Let_def this1_def [symmetric] attrs_def [symmetric]
    by simp
qed

lemma priv_setAttribute_frame:
  "sel_ranges (snd (priv_setAttribute k v d this)) = sel_ranges this \<and>
   sel_warnings (snd (priv_setAttribute k v d this)) = sel_warnings this"
  by (simp add: priv_setAttribute_def Let_def)

lemma priv_removeAttribute_frame:
  "sel_ranges (snd (priv_removeAttribute k d this)) = sel_ranges this \<and>
   sel_warnings (snd (priv_removeAttribute k d this)) = sel_warnings this"
  by (simp add: priv_removeAttribute_def Let_def)

lemma removeOtherAttributes_frame:
  "sel_ranges (snd (removeOtherAttributes attrs d entries (changed, this))) = sel_ranges this \<and>
   sel_warnings (snd (removeOtherAttributes attrs d entries (changed, this))) = sel_warnings this"
proof (induction entries arbitrary: changed this)
  case Nil
  show ?case by simp
next
  case (Cons entry entries)
  obtain oldKey oldValue where entry: "entry = (oldKey, oldValue)"
    by (cases entry)
  obtain r this' where step: "priv_removeAttribute oldKey d this = (r, this')"
    by (cases "priv_removeAttribute oldKey d this")
  have keep: "sel_ranges this' = sel_ranges this" "sel_warnings this' = sel_warnings this"
    using priv_removeAttribute_frame [of oldKey d this] step by simp_all
  show ?case
  proof (cases "map_of attrs oldKey = Some oldValue")
    case True
    with entry Cons.IH show ?thesis by simp
  next
    case False
    with entry step keep Cons.IH [of _ this'] show ?thesis
      by (cases r) simp_all
  qed
qed

lemma setAttributes_frame:
  "sel_ranges (snd (setAttributes d entries (changed, this))) = sel_ranges this \<and>
   sel_warnings (snd (setAttributes d entries (changed, this))) = sel_warnings this"
proof (induction entries arbitrary: changed this)
  case Nil
  show ?case by simp
next
  case (Cons entry entries)
  obtain k v where entry: "entry = (k, v)"
    by (cases entry)
  obtain r this' where step: "priv_setAttribute k v d this = (r, this')"
    by (cases "priv_setAttribute k v d this")
  have keep: "sel_ranges this' = sel_ranges this" "sel_warnings this' = sel_warnings this"
    using priv_setAttribute_frame [of k v d this] step by simp_all
  from entry step keep Cons.IH [of _ this'] show ?case
    by (cases r) simp_all
qed

lemma priv_setAttributesTo_frame:
  "sel_ranges (snd (priv_setAttributesTo attrs d this)) = sel_ranges this \<and>
   sel_warnings (snd (priv_setAttributesTo attrs d this)) = sel_warnings this"
proof -
  obtain changed this' where
    1: "removeOtherAttributes attrs d (sel_attrs this) ([], this) = (changed, this')"
    by (cases "removeOtherAttributes attrs d (sel_attrs this) ([], this)")
  have keep: "sel_ranges this' = sel_ranges this" "sel_warnings this' = sel_warnings this"
    using removeOtherAttributes_frame [of attrs d "sel_attrs this" "[]" this] 1 by simp_all
  show ?thesis
    using setAttributes_frame [of d attrs changed this'] keep 1
    by (simp add: priv_setAttributesTo_def)
qed

lemma priv_updateAttributes_frame:
  "sel_ranges (priv_updateAttributes doc clearAll this) = sel_ranges this \<and>
   sel_warnings (priv_updateAttributes doc clearAll this) = sel_warnings this"
proof -
  define this1 where "this1 =
            (if clearAll then
               this\<lparr>sel_attributePriority := Map.empty, sel_attrs := []\<rparr>
             else
               this\<lparr>sel_attrs :=
                      filter (\<lambda>(key, v). sel_attributePriority this key \<noteq> Some Low)
                        (sel_attrs this),
                    sel_attributePriority :=
                      (\<lambda>key. if sel_attributePriority this key = Some Low then None
                              else sel_attributePriority this key)\<rparr>)"
  have 1: "sel_ranges this1 = sel_ranges this" "sel_warnings this1 = sel_warnings this"
    by (simp_all add: this1_def)
  show ?thesis
    using priv_setAttributesTo_frame
      [of "toMap (doc_surroundingAttributes doc (sel_ranges this))" False this1] 1
    unfolding priv_updateAttributes_def Let_def this1_def [symmetric]
    by simp
qed

lemma popAllRanges_empties:
  "\<exists>this'. popAllRanges this = Inr this' \<and> sel_ranges this' = [] \<and>
     sel_warnings this' = sel_warnings this"
proof (induction "length (sel_ranges this)" arbitrary: this)
  case 0
  then show ?case by (subst popAllRanges.simps) simp
next
  case (Suc n)
  define this1 where "this1 = this\<lparr>sel_ranges := take n (sel_ranges this) @ drop (n + 1) (sel_ranges this),
                  sel_detached := sel_detached this @ [sel_ranges this ! n]\<rparr>"
  have l: "length (sel_ranges this) = Suc n"
    using Suc.hyps(2) by simp
  then have ne: "sel_ranges this \<noteq> []"
    by auto
  have pop: "priv_popRange this = Inr this1"
    using ne by (simp add: priv_popRange_def priv_removeRangeAtIndex_def this1_def l)
  have len: "n = length (sel_ranges this1)"
    by (simp add: this1_def l)
  have w: "sel_warnings this1 = sel_warnings this"
    by (simp add: this1_def)
  from Suc.hyps(1) [OF len] obtain this' where
    r: "popAllRanges this1 = Inr this'" "sel_ranges this' = []"
      "sel_warnings this' = sel_warnings this1"
    by blast
  have "popAllRanges this = popAllRanges this1"
    using l pop by (subst popAllRanges.simps) simp
  with r w show ?case by simp
qed

lemma LiveSelection_removeAllRanges_empties:
  "\<exists>this'. LiveSelection_removeAllRanges doc this = Inr this' \<and> sel_ranges this' = []"
proof (cases "length (sel_ranges this) > 0")
  case True
  from popAllRanges_empties [of this] obtain this1 where
    r: "popAllRanges this = Inr this1" "sel_ranges this1 = []"
    by blast
  with True show ?thesis
    by (simp add: LiveSelection_removeAllRanges_def Selection_removeAllRanges_def
        LiveSelection_refreshAttributes_def priv_updateAttributes_frame)
next
  case False
  then show ?thesis
    by (simp add: LiveSelection_removeAllRanges_def Selection_removeAllRanges_def
        LiveSelection_refreshAttributes_def priv_updateAttributes_frame)
qed

section \<open>Claims\<close>

text \<open>
  C1 (as amended). For every range \<open>R\<close> whose start is before its end,
  \<open>R.getDifference(R)\<close> is the empty array and \<open>R.getIntersection(R)\<close> is a range equal
  to \<open>R\<close>. For every other range (a collapsed one in particular) the range does not
  intersect itself: \<open>R.getDifference(R)\<close> is the array holding one copy of \<open>R\<close> and
  \<open>R.getIntersection(R)\<close> is \<open>null\<close>.
\<close>

theorem Range_self_difference_intersection:
  "(Position_isBefore (range_start R) (range_end R) \<longrightarrow>
      Range_getDifference R R = [] \<and> Range_getIntersection R R = Some R) \<and>
   (\<not> Position_isBefore (range_start R) (range_end R) \<longrightarrow>
      Range_getDifference R R = [R] \<and> Range_getIntersection R R = None)"
  by (simp add: Range_getDifference_def Range_getIntersection_def Range_isIntersecting_self
      Range_not_containsPosition_start Range_not_containsPosition_end
      Range_createFromRange_id new_Range_def Position_createFromPosition_id)

theorem Range_self_difference_intersection_witness:
  "Position_isBefore (new_Position ''main'' [0]) (new_Position ''main'' [1]) \<and>
   Range_getDifference (new_Range (new_Position ''main'' [0]) (Some (new_Position ''main'' [1])))
     (new_Range (new_Position ''main'' [0]) (Some (new_Position ''main'' [1]))) = [] \<and>
   Range_getIntersection (new_Range (new_Position ''main'' [0]) (Some (new_Position ''main'' [1])))
     (new_Range (new_Position ''main'' [0]) (Some (new_Position ''main'' [1])))
     = Some (new_Range (new_Position ''main'' [0]) (Some (new_Position ''main'' [1]))) \<and>
   \<not> Position_isBefore (new_Position ''main'' [4]) (new_Position ''main'' [4]) \<and>
   Range_getDifference (new_Range (new_Position ''main'' [4]) None)
     (new_Range (new_Position ''main'' [4]) None) = [new_Range (new_Position ''main'' [4]) None] \<and>
   Range_getIntersection (new_Range (new_Position ''main'' [4]) None)
     (new_Range (new_Position ''main'' [4]) None) = None"
  using Range_self_difference_intersection
    [of "new_Range (new_Position ''main'' [0]) (Some (new_Position ''main'' [1]))"]
    Range_self_difference_intersection
    [of "new_Range (new_Position ''main'' [4]) None"]
  by (simp add: new_Range_def Position_isBefore_def Position_compareWith_def
      new_Position_def Position_createFromPosition_def)

text \<open>
  C1 as stated fails for a collapsed range: for the range collapsed at \<open>[ 0 ]\<close> of the
  root \<open>main\<close>, \<open>getDifference\<close> of the range with itself is not empty and
  \<open>getIntersection\<close> is \<open>null\<close>, not the range.
\<close>

theorem Range_self_difference_collapsed_counterexample:
  "Range_isCollapsed (new_Range (new_Position ''main'' [0]) None) \<and>
   Range_getDifference (new_Range (new_Position ''main'' [0]) None)
     (new_Range (new_Position ''main'' [0]) None) \<noteq> [] \<and>
   Range_getIntersection (new_Range (new_Position ''main'' [0]) None)
     (new_Range (new_Position ''main'' [0]) None)
     \<noteq> Some (new_Range (new_Position ''main'' [0]) None)"
  by (simp add: Range_isCollapsed_def Range_getDifference_def Range_getIntersection_def
      Range_isIntersecting_def Range_createFromRange_def new_Range_def
      Position_isBefore_def Position_isAfter_def Position_isEqual_def
      Position_compareWith_def new_Position_def Position_createFromPosition_def)

text \<open>
  C2 (as amended). When the precondition of a \<open>ChangeOperation\<close> fails, the error is
  thrown at the first node of the range, in the order of the iteration, that violates
  it. For an operation that changes a value (old and new attribute both given) no node
  has been modified at that moment. For an operation that only removes an attribute,
  the nodes visited before the first node that lacks the old attribute have already lost
  it; for an operation that only adds an attribute, the nodes visited before the first
  node that already has the key have already received it. The offending node and the
  nodes after it are as they were.
\<close>

theorem ChangeOperation_execute_precondition_failure:
  "(oldAttr c = Some a \<longrightarrow> newAttr c = Some b \<longrightarrow>
      fst (ChangeOperation_execute nodesOf c store) \<noteq> None \<longrightarrow>
      snd (ChangeOperation_execute nodesOf c store) = store) \<and>
   (oldAttr c = Some a \<longrightarrow> newAttr c = None \<longrightarrow>
      nodesOf (operation_range c) = pre @ bad # post \<longrightarrow> distinct pre \<longrightarrow>
      (\<forall>n \<in> set pre. Node_hasAttr (store n) a) \<longrightarrow> \<not> Node_hasAttr (store bad) a \<longrightarrow>
      ChangeOperation_execute nodesOf c store =
        (Some (CKEditorError ''operation-change-no-attr-to-remove''),
         \<lambda>n. if n \<in> set pre then Node_removeAttr (store n) (attr_key a) else store n)) \<and>
   (oldAttr c = None \<longrightarrow> newAttr c = Some b \<longrightarrow>
      nodesOf (operation_range c) = pre @ bad # post \<longrightarrow> distinct pre \<longrightarrow>
      (\<forall>n \<in> set pre. \<not> Node_hasAttrKey (store n) (attr_key b)) \<longrightarrow>
      Node_hasAttrKey (store bad) (attr_key b) \<longrightarrow>
      ChangeOperation_execute nodesOf c store =
        (Some (CKEditorError ''operation-change-attr-exists''),
         \<lambda>n. if n \<in> set pre then Node_setAttr (store n) b else store n))"
  using ChangeOperation_execute_change_failure [of c a b nodesOf store]
    ChangeOperation_execute_remove_failure [of c a nodesOf pre bad post store]
    ChangeOperation_execute_insert_failure [of c b nodesOf pre bad post store]
  by blast

theorem ChangeOperation_execute_precondition_failure_witness:
  "ChangeOperation_execute (\<lambda>r. [0, 1])
     \<lparr>baseVersion = 0,
      operation_range = new_Range (new_Position ''main'' [0]) (Some (new_Position ''main'' [2])),
      oldAttr = Some \<lparr>attr_key = ''bold'', attr_value = True\<rparr>,
      newAttr = Some \<lparr>attr_key = ''bold'', attr_value = False\<rparr>\<rparr>
     ((\<lambda>n. Map.empty)(0 := [''bold'' \<mapsto> True]))
   = (Some (CKEditorError ''operation-change-no-attr-to-remove''),
      (\<lambda>n. Map.empty)(0 := [''bold'' \<mapsto> True])) \<and>
   ChangeOperation_execute (\<lambda>r. [0, 1])
     \<lparr>baseVersion = 0,
      operation_range = new_Range (new_Position ''main'' [0]) (Some (new_Position ''main'' [2])),
      oldAttr = Some \<lparr>attr_key = ''bold'', attr_value = True\<rparr>,
      newAttr = None\<rparr>
     ((\<lambda>n. Map.empty)(0 := [''bold'' \<mapsto> True]))
   = (Some (CKEditorError ''operation-change-no-attr-to-remove''), (\<lambda>n. Map.empty)) \<and>
   ChangeOperation_execute (\<lambda>r. [1, 0])
     \<lparr>baseVersion = 0,
      operation_range = new_Range (new_Position ''main'' [0]) (Some (new_Position ''main'' [2])),
      oldAttr = None,
      newAttr = Some \<lparr>attr_key = ''bold'', attr_value = False\<rparr>\<rparr>
     ((\<lambda>n. Map.empty)(0 := [''bold'' \<mapsto> True]))
   = (Some (CKEditorError ''operation-change-attr-exists''),
      (\<lambda>n. Map.empty)(0 := [''bold'' \<mapsto> True], 1 := [''bold'' \<mapsto> False]))"
proof -
  let ?R = "new_Range (new_Position ''main'' [0]) (Some (new_Position ''main'' [2]))"
  let ?T = "\<lparr>attr_key = ''bold'', attr_value = True\<rparr>"
  let ?F = "\<lparr>attr_key = ''bold'', attr_value = False\<rparr>"
  let ?s = "(\<lambda>n. Map.empty)(0 := [''bold'' \<mapsto> True]) :: bool node_store"
  have 1: "fst (ChangeOperation_execute (\<lambda>r. [0, 1])
      \<lparr>baseVersion = 0, operation_range = ?R, oldAttr = Some ?T, newAttr = Some ?F\<rparr> ?s)
      = Some (CKEditorError ''operation-change-no-attr-to-remove'')"
    by (simp add: ChangeOperation_execute_def differentKeys_def Node_hasAttr_def)
  have a: "ChangeOperation_execute (\<lambda>r. [0, 1])
      \<lparr>baseVersion = 0, operation_range = ?R, oldAttr = Some ?T, newAttr = Some ?F\<rparr> ?s
      = (Some (CKEditorError ''operation-change-no-attr-to-remove''), ?s)"
    using 1 ChangeOperation_execute_precondition_failure [of "\<lparr>baseVersion = 0, operation_range = ?R, oldAttr = Some ?T, newAttr = Some ?F\<rparr>"
        ?T ?F "\<lambda>r. [0, 1]" ?s]
    by (simp add: prod_eq_iff)
  have b: "ChangeOperation_execute (\<lambda>r. [0, 1])
      \<lparr>baseVersion = 0, operation_range = ?R, oldAttr = Some ?T, newAttr = None\<rparr> ?s
      = (Some (CKEditorError ''operation-change-no-attr-to-remove''), (\<lambda>n. Map.empty))"
    using ChangeOperation_execute_precondition_failure [of "\<lparr>baseVersion = 0, operation_range = ?R, oldAttr = Some ?T, newAttr = None\<rparr>"
        ?T _ "\<lambda>r. [0, 1]" ?s "[0]" 1 "[]"]
    by (simp add: Node_hasAttr_def Node_removeAttr_def fun_eq_iff)
  have c: "ChangeOperation_execute (\<lambda>r. [1, 0])
      \<lparr>baseVersion = 0, operation_range = ?R, oldAttr = None, newAttr = Some ?F\<rparr> ?s
      = (Some (CKEditorError ''operation-change-attr-exists''),
         (\<lambda>n. Map.empty)(0 := [''bold'' \<mapsto> True], 1 := [''bold'' \<mapsto> False]))"
    using ChangeOperation_execute_precondition_failure [of "\<lparr>baseVersion = 0, operation_range = ?R, oldAttr = None, newAttr = Some ?F\<rparr>"
        _ ?F "\<lambda>r. [1, 0]" ?s "[1]" 0 "[]"]
    by (simp add: Node_hasAttrKey_def Node_setAttr_def fun_eq_iff)
  from a b c show ?thesis by blast
qed

text \<open>
  C2 as stated fails for an operation that removes an attribute: with the nodes \<open>0\<close>
  and \<open>1\<close> in the range, of which only node \<open>0\<close> has the attribute \<open>bold\<close>, the
  error is thrown at node \<open>1\<close>, when node \<open>0\<close> has already lost the attribute.
\<close>

theorem ChangeOperation_execute_partial_counterexample:
  "fst (ChangeOperation_execute (\<lambda>r. [0, 1])
     \<lparr>baseVersion = 0,
      operation_range = new_Range (new_Position ''main'' [0]) (Some (new_Position ''main'' [2])),
      oldAttr = Some \<lparr>attr_key = ''bold'', attr_value = True\<rparr>,
      newAttr = None\<rparr>
     ((\<lambda>n. Map.empty)(0 := [''bold'' \<mapsto> True])))
   = Some (CKEditorError ''operation-change-no-attr-to-remove'') \<and>
   ((\<lambda>n. Map.empty)(0 := [''bold'' \<mapsto> True])) 0 ''bold'' = Some True \<and>
   snd (ChangeOperation_execute (\<lambda>r. [0, 1])
     \<lparr>baseVersion = 0,
      operation_range = new_Range (new_Position ''main'' [0]) (Some (new_Position ''main'' [2])),
      oldAttr = Some \<lparr>attr_key = ''bold'', attr_value = True\<rparr>,
      newAttr = None\<rparr>
     ((\<lambda>n. Map.empty)(0 := [''bold'' \<mapsto> True]))) 0 ''bold'' = None"
  by (simp add: ChangeOperation_execute_def differentKeys_def Node_hasAttr_def
      Node_removeAttr_def)

text \<open>
  C3 (as amended). \<open>ReinsertOperation.getReversed()\<close> returns a \<open>RemoveOperation\<close> with
  the same \<open>howMany\<close> and \<open>baseVersion + 1\<close> whose \<open>sourcePosition\<close> is the
  \<open>targetPosition\<close> of the reinsert operation and whose own \<open>targetPosition\<close> is in the
  graveyard. It is the inverse operation: whenever a reinsert operation, which moves
  nodes from the graveyard to another root, has been executed, executing the reversed
  operation leaves every root but the graveyard as it was before the reinsert operation,
  and when the nodes go back to the place of the graveyard that they came from, the
  reversed operation can be executed and gives back the whole document.
  \<open>ChangeOperation.getReversed()\<close> returns a \<open>ChangeOperation\<close> on the same range with
  the old and the new attribute swapped and \<open>baseVersion + 1\<close>, and it is the inverse
  operation: whenever a change operation has been executed without an error, executing
  the reversed operation on the resulting nodes succeeds and gives back the attributes
  the nodes had before.
\<close>

theorem getReversed_inverse:
  "ReinsertOperation_getReversed graveyard graveyardPath r =
     MoveOperation TypeRemove
       \<lparr>baseVersion = baseVersion r + 1, sourcePosition = targetPosition r,
        howMany = howMany r, targetPosition = new_Position graveyard graveyardPath\<rparr> \<and>
   (root (sourcePosition r) = graveyard \<and> root (targetPosition r) \<noteq> graveyard \<and>
    MoveOperation_execute doc r = Some doc' \<longrightarrow>
      (\<forall>reversed.
         ReinsertOperation_getReversed graveyard graveyardPath r =
           MoveOperation TypeRemove reversed \<longrightarrow>
         (\<forall>doc''. MoveOperation_execute doc' reversed = Some doc'' \<longrightarrow>
            (\<forall>name. name \<noteq> graveyard \<longrightarrow> doc'' name = doc name)) \<and>
         (graveyardPath = path (sourcePosition r) \<longrightarrow>
            MoveOperation_execute doc' reversed = Some doc))) \<and>
   operation_range (ChangeOperation_getReversed c) = operation_range c \<and>
   oldAttr (ChangeOperation_getReversed c) = newAttr c \<and>
   newAttr (ChangeOperation_getReversed c) = oldAttr c \<and>
   baseVersion (ChangeOperation_getReversed c) = baseVersion c + 1 \<and>
   (ChangeOperation_execute nodesOf c store = (None, store') \<longrightarrow>
      ChangeOperation_execute nodesOf (ChangeOperation_getReversed c) store' = (None, store))"
proof -
  let ?reversed = "\<lparr>baseVersion = baseVersion r + 1, sourcePosition = targetPosition r,
        howMany = howMany r, targetPosition = new_Position graveyard graveyardPath\<rparr>"
  have made: "ReinsertOperation_getReversed graveyard graveyardPath r =
      MoveOperation TypeRemove ?reversed"
    by (simp add: ReinsertOperation_getReversed_def new_RemoveOperation_def)
  have undone: "(\<forall>doc''. MoveOperation_execute doc' ?reversed = Some doc'' \<longrightarrow>
            (\<forall>name. name \<noteq> graveyard \<longrightarrow> doc'' name = doc name)) \<and>
         (graveyardPath = path (sourcePosition r) \<longrightarrow>
            MoveOperation_execute doc' ?reversed = Some doc)"
    if "root (sourcePosition r) = graveyard" "root (targetPosition r) \<noteq> graveyard"
      "MoveOperation_execute doc r = Some doc'"
    using ReinsertOperation_reversed_undoes [OF that(3) that(1) that(2)] by blast
  have change: "ChangeOperation_execute nodesOf c store = (None, store') \<longrightarrow>
      ChangeOperation_execute nodesOf (ChangeOperation_getReversed c) store' = (None, store)"
    using ChangeOperation_getReversed_undoes [of nodesOf c store store'] by simp
  have fields: "operation_range (ChangeOperation_getReversed c) = operation_range c \<and>
   oldAttr (ChangeOperation_getReversed c) = newAttr c \<and>
   newAttr (ChangeOperation_getReversed c) = oldAttr c \<and>
   baseVersion (ChangeOperation_getReversed c) = baseVersion c + 1"
    by (simp add: ChangeOperation_getReversed_def)
  from made undone change fields show ?thesis by simp
qed

theorem getReversed_inverse_witness:
  "ReinsertOperation_getReversed ''$graveyard'' [0]
     \<lparr>baseVersion = 4, sourcePosition = new_Position ''$graveyard'' [0], howMany = 2,
      targetPosition = new_Position ''main'' [1]\<rparr>
   = MoveOperation TypeRemove
       \<lparr>baseVersion = 5, sourcePosition = new_Position ''main'' [1], howMany = 2,
        targetPosition = new_Position ''$graveyard'' [0]\<rparr> \<and>
   MoveOperation_execute
     ((\<lambda>name. [])(''main'' := [ModelNode ''a'' [], ModelNode ''b'' []],
         ''$graveyard'' := [ModelNode ''x'' [], ModelNode ''y'' []]))
     \<lparr>baseVersion = 4, sourcePosition = new_Position ''$graveyard'' [0], howMany = 2,
      targetPosition = new_Position ''main'' [1]\<rparr>
   = Some ((\<lambda>name. [])(''main'' := [ModelNode ''a'' [], ModelNode ''x'' [], ModelNode ''y'' [],
                                      ModelNode ''b'' []],
         ''$graveyard'' := [])) \<and>
   MoveOperation_execute
     ((\<lambda>name. [])(''main'' := [ModelNode ''a'' [], ModelNode ''x'' [], ModelNode ''y'' [],
                               ModelNode ''b'' []],
         ''$graveyard'' := []))
     \<lparr>baseVersion = 5, sourcePosition = new_Position ''main'' [1], howMany = 2,
      targetPosition = new_Position ''$graveyard'' [0]\<rparr>
   = Some ((\<lambda>name. [])(''main'' := [ModelNode ''a'' [], ModelNode ''b'' []],
         ''$graveyard'' := [ModelNode ''x'' [], ModelNode ''y'' []])) \<and>
   ChangeOperation_getReversed
     \<lparr>baseVersion = 7,
      operation_range = new_Range (new_Position ''main'' [0]) (Some (new_Position ''main'' [2])),
      oldAttr = None,
      newAttr = Some \<lparr>attr_key = ''bold'', attr_value = True\<rparr>\<rparr>
   = \<lparr>baseVersion = 8,
      operation_range = new_Range (new_Position ''main'' [0]) (Some (new_Position ''main'' [2])),
      oldAttr = Some \<lparr>attr_key = ''bold'', attr_value = True\<rparr>,
      newAttr = None\<rparr> \<and>
   ChangeOperation_execute (\<lambda>r. [0, 1])
     \<lparr>baseVersion = 7,
      operation_range = new_Range (new_Position ''main'' [0]) (Some (new_Position ''main'' [2])),
      oldAttr = None,
      newAttr = Some \<lparr>attr_key = ''bold'', attr_value = True\<rparr>\<rparr>
     (\<lambda>n. Map.empty)
   = (None, (\<lambda>n. Map.empty)(0 := [''bold'' \<mapsto> True], 1 := [''bold'' \<mapsto> True])) \<and>
   ChangeOperation_execute (\<lambda>r. [0, 1])
     \<lparr>baseVersion = 8,
      operation_range = new_Range (new_Position ''main'' [0]) (Some (new_Position ''main'' [2])),
      oldAttr = Some \<lparr>attr_key = ''bold'', attr_value = True\<rparr>,
      newAttr = None\<rparr>
     ((\<lambda>n. Map.empty)(0 := [''bold'' \<mapsto> True], 1 := [''bold'' \<mapsto> True]))
   = (None, (\<lambda>n. Map.empty))"
proof -
  let ?R = "new_Range (new_Position ''main'' [0]) (Some (new_Position ''main'' [2]))"
  let ?c = "\<lparr>baseVersion = 7, operation_range = ?R, oldAttr = None,
      newAttr = Some \<lparr>attr_key = ''bold'', attr_value = True\<rparr>\<rparr>"
  let ?s1 = "(\<lambda>n. Map.empty)(0 := [''bold'' \<mapsto> True], 1 := [''bold'' \<mapsto> True]) :: bool node_store"
  let ?r = "\<lparr>baseVersion = 4, sourcePosition = new_Position ''$graveyard'' [0], howMany = 2,
      targetPosition = new_Position ''main'' [1]\<rparr>"
  let ?reversed = "\<lparr>baseVersion = 5, sourcePosition = new_Position ''main'' [1], howMany = 2,
        targetPosition = new_Position ''$graveyard'' [0]\<rparr>"
  let ?doc = "(\<lambda>name. [])(''main'' := [ModelNode ''a'' [], ModelNode ''b'' []],
         ''$graveyard'' := [ModelNode ''x'' [], ModelNode ''y'' []])"
  let ?doc' = "(\<lambda>name. [])(''main'' := [ModelNode ''a'' [], ModelNode ''x'' [], ModelNode ''y'' [],
                                      ModelNode ''b'' []],
         ''$graveyard'' := [])"
  have made: "ReinsertOperation_getReversed ''$graveyard'' [0] ?r = MoveOperation TypeRemove ?reversed"
    by (simp add: ReinsertOperation_getReversed_def new_RemoveOperation_def)
  have moved: "MoveOperation_execute ?doc ?r = Some ?doc'"
    by (simp add: MoveOperation_execute_def isInMovedNodes_def detachNodes_def attachNodes_def
        Position_getTransformedByDeletion_def Position_getParentPath_def Position_offset_def
        new_Position_def fun_upd_twist)
  have ex: "ChangeOperation_execute (\<lambda>r. [0, 1]) ?c (\<lambda>n. Map.empty) = (None, ?s1)"
    by (simp add: ChangeOperation_execute_def differentKeys_def Node_hasAttrKey_def
        Node_setAttr_def)
  have rev: "ChangeOperation_getReversed ?c =
      \<lparr>baseVersion = 8, operation_range = ?R,
       oldAttr = Some \<lparr>attr_key = ''bold'', attr_value = True\<rparr>, newAttr = None\<rparr>"
    by (simp add: ChangeOperation_getReversed_def)
  have src: "root (sourcePosition ?r) = ''$graveyard''" "root (targetPosition ?r) \<noteq> ''$graveyard''"
    "[0] = path (sourcePosition ?r)"
    by (simp_all add: new_Position_def)
  show ?thesis
    using ex made moved src
      getReversed_inverse [of "''$graveyard''" "[0]" ?r ?doc ?doc' ?c "\<lambda>r. [0, 1]"
        "\<lambda>n. Map.empty" ?s1]
    by (simp add: rev)
qed

theorem ReinsertOperation_getReversed_targetPosition_counterexample:
  "\<forall>graveyardPath.
     ReinsertOperation_getReversed ''$graveyard'' graveyardPath
       \<lparr>baseVersion = 4, sourcePosition = new_Position ''$graveyard'' [0], howMany = 2,
        targetPosition = new_Position ''main'' [1]\<rparr>
     = MoveOperation TypeRemove
         \<lparr>baseVersion = 5, sourcePosition = new_Position ''main'' [1], howMany = 2,
          targetPosition = new_Position ''$graveyard'' graveyardPath\<rparr> \<and>
     new_Position ''$graveyard'' graveyardPath \<noteq> new_Position ''main'' [1]"
  by (simp add: ReinsertOperation_getReversed_def new_RemoveOperation_def new_Position_def)

text \<open>
  C4. The claim fails on the code. \<open>Range.createFromRanges\<close> is given the ranges
  \<open>[ 3 ] - [ 7 ]\<close>, \<open>[ 2 ] - [ 3 ]\<close> and \<open>[ 11 ] - [ 14 ]\<close> of the root \<open>main\<close>, where two
  positions touch when they are equal. The ranges are disjoint; only the first of them
  in the document, \<open>[ 2 ] - [ 3 ]\<close>, and the second, \<open>[ 3 ] - [ 7 ]\<close>, touch; the second
  is passed at index 0 and is the reference range. With a sort that leaves the array as
  it was passed, which is what the current engines make of a comparator that answers
  with a boolean, the reference range stays at index 0, the loop over the ranges before
  it has nothing to go through, and the result is the reference range alone, not the
  range \<open>[ 2 ] - [ 7 ]\<close> that spans the touching pair, wherever the third range is passed.
\<close>

theorem Range_createFromRanges_reference_alone:
  "Position_isEqual (new_Position ''main'' [3]) (new_Position ''main'' [3]) \<and>
   Range_createFromRanges (\<lambda>comparefn array. array) Position_isEqual
     [new_Range (new_Position ''main'' [3]) (Some (new_Position ''main'' [7])),
      new_Range (new_Position ''main'' [2]) (Some (new_Position ''main'' [3])),
      new_Range (new_Position ''main'' [11]) (Some (new_Position ''main'' [14]))]
   = Inr (new_Range (new_Position ''main'' [3]) (Some (new_Position ''main'' [7]))) \<and>
   Range_createFromRanges (\<lambda>comparefn array. array) Position_isEqual
     [new_Range (new_Position ''main'' [3]) (Some (new_Position ''main'' [7])),
      new_Range (new_Position ''main'' [11]) (Some (new_Position ''main'' [14])),
      new_Range (new_Position ''main'' [2]) (Some (new_Position ''main'' [3]))]
   = Inr (new_Range (new_Position ''main'' [3]) (Some (new_Position ''main'' [7]))) \<and>
   new_Range (new_Position ''main'' [3]) (Some (new_Position ''main'' [7])) \<noteq>
   new_Range (new_Position ''main'' [2]) (Some (new_Position ''main'' [7]))"
  by (simp add: Range_createFromRanges_as_passed glueAfter_stop Position_isEqual_def
      Position_compareWith_def new_Range_def new_Position_def Position_createFromPosition_def)

text \<open>
  C5. \<open>Range.createFromRanges( ranges )\<close> throws the error
  \<open>range-create-from-ranges-empty-array\<close> if and only if the array is empty, whatever
  order the sort of the engine makes and whatever \<open>isTouching\<close> answers; for an array of
  exactly one range it returns a range equal to that range.
\<close>

theorem Range_createFromRanges_empty_single:
  "(Range_createFromRanges engineSort isTouching ranges =
      Inl (CKEditorError ''range-create-from-ranges-empty-array'') \<longleftrightarrow> ranges = []) \<and>
   Range_createFromRanges engineSort isTouching [r] = Inr r"
proof (intro conjI iffI)
  show "ranges = []"
    if "Range_createFromRanges engineSort isTouching ranges =
      Inl (CKEditorError ''range-create-from-ranges-empty-array'')"
    using that Range_createFromRanges_nonempty [of ranges engineSort isTouching] by blast
  show "Range_createFromRanges engineSort isTouching ranges =
      Inl (CKEditorError ''range-create-from-ranges-empty-array'')" if "ranges = []"
    using that by (simp add: Range_createFromRanges_def)
  show "Range_createFromRanges engineSort isTouching [r] = Inr r"
    by (simp add: Range_createFromRanges_def Range_createFromRange_id)
qed

theorem Range_createFromRanges_empty_single_witness:
  "Range_createFromRanges (\<lambda>comparefn array. array) Position_isEqual [] =
     Inl (CKEditorError ''range-create-from-ranges-empty-array'') \<and>
   Range_createFromRanges (\<lambda>comparefn array. array) Position_isEqual
     [new_Range (new_Position ''main'' [2]) (Some (new_Position ''main'' [3]))]
     = Inr (new_Range (new_Position ''main'' [2]) (Some (new_Position ''main'' [3])))"
  using Range_createFromRanges_empty_single [of "\<lambda>comparefn array. array" Position_isEqual "[]"]
    Range_createFromRanges_empty_single
      [of "\<lambda>comparefn array. array" Position_isEqual _
        "new_Range (new_Position ''main'' [2]) (Some (new_Position ''main'' [3]))"]
  by simp

text \<open>
  C6. The claim fails on the code. The range from \<open>[ 10 ]\<close> to \<open>[ 20 ]\<close> of the root
  \<open>main\<close> is transformed by four deltas of one move operation each: two nodes from
  \<open>[ 14 ]\<close> to \<open>[ 50 ]\<close>, two nodes from \<open>[ 12 ]\<close> to \<open>[ 60 ]\<close>, the two nodes at
  \<open>[ 58 ]\<close> back to \<open>[ 12 ]\<close> and the two nodes at \<open>[ 48 ]\<close> back to \<open>[ 15 ]\<close>. Before
  the last loops the array holds the ranges \<open>[ 10 ] - [ 20 ]\<close>, \<open>[ 12 ] - [ 14 ]\<close> and
  \<open>[ 15 ] - [ 17 ]\<close>. Removing the second one moves the third to the index just visited,
  and the incremented index passes over it: \<open>getTransformedByDeltas\<close> returns
  \<open>[ 10 ] - [ 20 ]\<close> and \<open>[ 15 ] - [ 17 ]\<close>, the second wholly contained in the first.
\<close>

theorem Range_getTransformedByDeltas_keeps_contained_range:
  "Range_getTransformedByDeltas
     (new_Range (new_Position ''main'' [10]) (Some (new_Position ''main'' [20])))
     [[MoveOperation TypeMove
         \<lparr>baseVersion = 0, sourcePosition = new_Position ''main'' [14], howMany = 2,
          targetPosition = new_Position ''main'' [50]\<rparr>],
      [MoveOperation TypeMove
         \<lparr>baseVersion = 1, sourcePosition = new_Position ''main'' [12], howMany = 2,
          targetPosition = new_Position ''main'' [60]\<rparr>],
      [MoveOperation TypeMove
         \<lparr>baseVersion = 2, sourcePosition = new_Position ''main'' [58], howMany = 2,
          targetPosition = new_Position ''main'' [12]\<rparr>],
      [MoveOperation TypeMove
         \<lparr>baseVersion = 3, sourcePosition = new_Position ''main'' [48], howMany = 2,
          targetPosition = new_Position ''main'' [15]\<rparr>]]
   = Inr [new_Range (new_Position ''main'' [10]) (Some (new_Position ''main'' [20])),
          new_Range (new_Position ''main'' [15]) (Some (new_Position ''main'' [17]))] \<and>
   Range_containsRange
     (new_Range (new_Position ''main'' [10]) (Some (new_Position ''main'' [20])))
     (new_Range (new_Position ''main'' [15]) (Some (new_Position ''main'' [17])))"
  by code_simp

text \<open>
  C7. A \<open>LiveSelection\<close> with no ranges of its own reports \<open>rangeCount\<close> 1 and
  \<open>getRanges()\<close> yields exactly one range, the default range of the document. Adding
  to it a range that is outside the graveyard (and passes \<open>_checkRange\<close>) succeeds and
  makes the range the only range of the selection; \<open>removeAllRanges()\<close> then succeeds
  and leaves the selection with no range of its own again: \<open>rangeCount\<close> is 1 and
  \<open>getRanges()\<close> yields the default range only.
\<close>

theorem LiveSelection_default_range_state:
  assumes empty: "sel_ranges this = []"
    and root: "Range_root r \<noteq> doc_graveyard doc"
    and check: "checkRange r [] = None"
  shows "LiveSelection_rangeCount this = 1 \<and>
     LiveSelection_getRanges doc this = [doc_defaultRange doc] \<and>
     (\<exists>this1 this2.
        LiveSelection_addRange checkRange doc (RangeInstance r) isBackward this = Inr this1 \<and>
        sel_ranges this1 = [r] \<and>
        LiveSelection_removeAllRanges doc this1 = Inr this2 \<and>
        sel_ranges this2 = [] \<and>
        LiveSelection_rangeCount this2 = 1 \<and>
        LiveSelection_getRanges doc this2 = [doc_defaultRange doc])"
proof -
  obtain this1 where add:
    "LiveSelection_addRange checkRange doc (RangeInstance r) isBackward this = Inr this1"
    "sel_ranges this1 = [r]"
    using assms
    by (simp add: LiveSelection_addRange_def Selection_addRange_def priv_pushRange_def
        priv_prepareRange_def LiveSelection_refreshAttributes_def priv_updateAttributes_frame
        Range_createFromRange_id)
  from LiveSelection_removeAllRanges_empties [of doc this1] obtain this2 where
    rem: "LiveSelection_removeAllRanges doc this1 = Inr this2" "sel_ranges this2 = []"
    by blast
  have "LiveSelection_rangeCount this2 = 1"
    "LiveSelection_getRanges doc this2 = [doc_defaultRange doc]"
    using rem(2) by (simp_all add: LiveSelection_rangeCount_def LiveSelection_getRanges_def)
  with add rem empty show ?thesis
    by (simp add: LiveSelection_rangeCount_def LiveSelection_getRanges_def)
qed

theorem LiveSelection_default_range_state_witness:
  "Range_root (new_Range (new_Position ''main'' [2]) (Some (new_Position ''main'' [2, 2])))
     \<noteq> ''$graveyard'' \<and>
   LiveSelection_rangeCount
     (\<lparr>sel_ranges = [], sel_lastRangeBackward = False, sel_attrs = [],
       sel_attributePriority = Map.empty, sel_fired = [], sel_warnings = [],
       sel_detached = []\<rparr> :: bool live_selection) = 1 \<and>
   LiveSelection_getRanges
     \<lparr>doc_graveyard = ''$graveyard'',
      doc_defaultRange = new_Range (new_Position ''main'' [0, 0]) None,
      doc_surroundingAttributes = (\<lambda>ranges. [(''bold'', True)])\<rparr>
     \<lparr>sel_ranges = [], sel_lastRangeBackward = False, sel_attrs = [],
      sel_attributePriority = Map.empty, sel_fired = [], sel_warnings = [],
      sel_detached = []\<rparr> = [new_Range (new_Position ''main'' [0, 0]) None] \<and>
   (\<exists>this1 this2.
      LiveSelection_addRange (\<lambda>range ranges. None)
        \<lparr>doc_graveyard = ''$graveyard'',
         doc_defaultRange = new_Range (new_Position ''main'' [0, 0]) None,
         doc_surroundingAttributes = (\<lambda>ranges. [(''bold'', True)])\<rparr>
        (RangeInstance (new_Range (new_Position ''main'' [2]) (Some (new_Position ''main'' [2, 2]))))
        False
        \<lparr>sel_ranges = [], sel_lastRangeBackward = False, sel_attrs = [],
         sel_attributePriority = Map.empty, sel_fired = [], sel_warnings = [],
         sel_detached = []\<rparr> = Inr this1 \<and>
      sel_ranges this1 =
        [new_Range (new_Position ''main'' [2]) (Some (new_Position ''main'' [2, 2]))] \<and>
      LiveSelection_removeAllRanges
        \<lparr>doc_graveyard = ''$graveyard'',
         doc_defaultRange = new_Range (new_Position ''main'' [0, 0]) None,
         doc_surroundingAttributes = (\<lambda>ranges. [(''bold'', True)])\<rparr> this1 = Inr this2 \<and>
      sel_ranges this2 = [] \<and>
      LiveSelection_rangeCount this2 = 1 \<and>
      LiveSelection_getRanges
        \<lparr>doc_graveyard = ''$graveyard'',
         doc_defaultRange = new_Range (new_Position ''main'' [0, 0]) None,
         doc_surroundingAttributes = (\<lambda>ranges. [(''bold'', True)])\<rparr> this2 =
        [new_Range (new_Position ''main'' [0, 0]) None])"
proof -
  have root: "Range_root (new_Range (new_Position ''main'' [2]) (Some (new_Position ''main'' [2, 2])))
     \<noteq> ''$graveyard''"
    by (simp add: Range_root_def new_Range_def new_Position_def Position_createFromPosition_def)
  have empty: "sel_ranges \<lparr>sel_ranges = [], sel_lastRangeBackward = False, sel_attrs = [],
        sel_attributePriority = Map.empty, sel_fired = [], sel_warnings = [],
        sel_detached = []\<rparr> = []"
    by simp
  have root': "Range_root (new_Range (new_Position ''main'' [2]) (Some (new_Position ''main'' [2, 2])))
     \<noteq> doc_graveyard \<lparr>doc_graveyard = ''$graveyard'',
         doc_defaultRange = new_Range (new_Position ''main'' [0, 0]) None,
         doc_surroundingAttributes = (\<lambda>ranges. [(''bold'', True)])\<rparr>"
    using root by simp
  note inst = LiveSelection_default_range_state [where checkRange = "\<lambda>range ranges. None" and isBackward = False,
      OF empty root' refl]
  from inst root show ?thesis
    by simp
qed

text \<open>
  C8. For a key whose recorded priority is \<open>'normal'\<close>, \<open>_setAttribute\<close> and
  \<open>_removeAttribute\<close> called with \<open>directChange = false\<close> return \<open>false\<close> and leave
  the selection as it is. \<open>_updateAttributes( false )\<close>, which writes with the low
  priority, leaves the value and the priority of the key as they are, whatever the
  attributes around the selection. After \<open>_updateAttributes( true )\<close> no key has the
  priority \<open>'normal'\<close> any more: the full refresh has reset the priorities.
\<close>

theorem LiveSelection_low_priority_write:
  assumes "sel_attributePriority this key = Some Normal"
  shows "priv_setAttribute key v False this = (False, this) \<and>
     priv_removeAttribute key False this = (False, this) \<and>
     sel_attributePriority (priv_updateAttributes doc False this) key = Some Normal \<and>
     map_of (sel_attrs (priv_updateAttributes doc False this)) key = map_of (sel_attrs this) key \<and>
     (\<forall>k. sel_attributePriority (priv_updateAttributes doc True this) k \<noteq> Some Normal)"
  using assms priv_updateAttributes_low_keeps [OF assms, of doc]
    priv_updateAttributes_clearAll_no_normal [of doc this]
  by (simp add: priv_setAttribute_def priv_removeAttribute_def)

theorem LiveSelection_low_priority_write_witness:
  "priv_setAttribute ''foo'' ''bar'' False
     \<lparr>sel_ranges = [], sel_lastRangeBackward = False, sel_attrs = [(''foo'', ''xyz'')],
      sel_attributePriority = [''foo'' \<mapsto> Normal], sel_fired = [], sel_warnings = [],
      sel_detached = []\<rparr>
   = (False,
      \<lparr>sel_ranges = [], sel_lastRangeBackward = False, sel_attrs = [(''foo'', ''xyz'')],
       sel_attributePriority = [''foo'' \<mapsto> Normal], sel_fired = [], sel_warnings = [],
       sel_detached = []\<rparr>) \<and>
   map_of (sel_attrs (priv_updateAttributes
     \<lparr>doc_graveyard = ''$graveyard'',
      doc_defaultRange = new_Range (new_Position ''main'' [0, 0]) None,
      doc_surroundingAttributes = (\<lambda>ranges. [(''foo'', ''bar'')])\<rparr>
     False
     \<lparr>sel_ranges = [], sel_lastRangeBackward = False, sel_attrs = [(''foo'', ''xyz'')],
      sel_attributePriority = [''foo'' \<mapsto> Normal], sel_fired = [], sel_warnings = [],
      sel_detached = []\<rparr>)) ''foo'' = Some ''xyz''"
  using LiveSelection_low_priority_write [of "\<lparr>sel_ranges = [], sel_lastRangeBackward = False, sel_attrs = [(''foo'', ''xyz'')],
      sel_attributePriority = [''foo'' \<mapsto> Normal], sel_fired = [], sel_warnings = [],
      sel_detached = []\<rparr>" "''foo''" "''bar''" "\<lparr>doc_graveyard = ''$graveyard'',
      doc_defaultRange = new_Range (new_Position ''main'' [0, 0]) None,
      doc_surroundingAttributes = (\<lambda>ranges. [(''foo'', ''bar'')])\<rparr>"]
  by simp

text \<open>
  C9. For a range whose root is the graveyard root of the document, \<open>_pushRange\<close>
  throws nothing, logs the warning \<open>model-selection-range-in-graveyard\<close> and leaves
  everything else of the selection, its ranges among it, as it was. \<open>addRange\<close> with
  such a range throws nothing either: the warning is logged, the ranges stay as they
  were, and the call goes on as after any \<open>addRange\<close> (it records the direction, fires
  \<open>change:range\<close> and refreshes the attributes). For an argument that is not an
  instance of \<open>Range\<close> both throw \<open>model-selection-added-not-range\<close>.
\<close>

theorem LiveSelection_graveyard_range_rejected:
  assumes "Range_root r = doc_graveyard doc"
  shows "priv_pushRange checkRange doc (RangeInstance r) this =
       Inr (this\<lparr>sel_warnings := sel_warnings this @ [''model-selection-range-in-graveyard'']\<rparr>) \<and>
     LiveSelection_addRange checkRange doc (RangeInstance r) isBackward this =
       Inr (LiveSelection_refreshAttributes doc
              (this\<lparr>sel_warnings :=
                       sel_warnings this @ [''model-selection-range-in-graveyard''],
                    sel_lastRangeBackward := isBackward,
                    sel_fired := sel_fired this @ [ChangeRange True]\<rparr>)) \<and>
     (\<exists>this'. LiveSelection_addRange checkRange doc (RangeInstance r) isBackward this = Inr this' \<and>
        sel_ranges this' = sel_ranges this \<and>
        sel_warnings this' = sel_warnings this @ [''model-selection-range-in-graveyard'']) \<and>
     priv_pushRange checkRange doc NotARange this =
       Inl (CKEditorError ''model-selection-added-not-range'') \<and>
     LiveSelection_addRange checkRange doc NotARange isBackward this =
       Inl (CKEditorError ''model-selection-added-not-range'')"
  using assms
  by (simp add: LiveSelection_addRange_def Selection_addRange_def priv_pushRange_def
      priv_prepareRange_def LiveSelection_refreshAttributes_def priv_updateAttributes_frame)

theorem LiveSelection_graveyard_range_rejected_witness:
  "Range_root (new_Range (new_Position ''$graveyard'' [0]) (Some (new_Position ''$graveyard'' [1])))
     = ''$graveyard'' \<and>
   priv_pushRange (\<lambda>range ranges. None)
     \<lparr>doc_graveyard = ''$graveyard'',
      doc_defaultRange = new_Range (new_Position ''main'' [0, 0]) None,
      doc_surroundingAttributes = (\<lambda>ranges. [(''bold'', True)])\<rparr>
     (RangeInstance
        (new_Range (new_Position ''$graveyard'' [0]) (Some (new_Position ''$graveyard'' [1]))))
     \<lparr>sel_ranges = [], sel_lastRangeBackward = False, sel_attrs = [],
      sel_attributePriority = Map.empty, sel_fired = [], sel_warnings = [],
      sel_detached = []\<rparr>
   = Inr \<lparr>sel_ranges = [], sel_lastRangeBackward = False, sel_attrs = [],
      sel_attributePriority = Map.empty, sel_fired = [],
      sel_warnings = [''model-selection-range-in-graveyard''], sel_detached = []\<rparr> \<and>
   priv_pushRange (\<lambda>range ranges. None)
     \<lparr>doc_graveyard = ''$graveyard'',
      doc_defaultRange = new_Range (new_Position ''main'' [0, 0]) None,
      doc_surroundingAttributes = (\<lambda>ranges. [(''bold'', True)])\<rparr>
     NotARange
     \<lparr>sel_ranges = [], sel_lastRangeBackward = False, sel_attrs = [],
      sel_attributePriority = Map.empty, sel_fired = [], sel_warnings = [],
      sel_detached = []\<rparr>
   = Inl (CKEditorError ''model-selection-added-not-range'')"
proof -
  have root: "Range_root (new_Range (new_Position ''$graveyard'' [0])
      (Some (new_Position ''$graveyard'' [1]))) = ''$graveyard''"
    by (simp add: Range_root_def new_Range_def new_Position_def Position_createFromPosition_def)
  show ?thesis
    using root LiveSelection_graveyard_range_rejected [of "new_Range (new_Position ''$graveyard'' [0])
        (Some (new_Position ''$graveyard'' [1]))"
      "\<lparr>doc_graveyard = ''$graveyard'',
         doc_defaultRange = new_Range (new_Position ''main'' [0, 0]) None,
         doc_surroundingAttributes = (\<lambda>ranges. [(''bold'', True)])\<rparr>"
      "\<lambda>range ranges. None"
      "\<lparr>sel_ranges = [], sel_lastRangeBackward = False, sel_attrs = [],
        sel_attributePriority = Map.empty, sel_fired = [], sel_warnings = [],
        sel_detached = []\<rparr>" False]
    by simp
qed

text \<open>
  C10. For a position object \<open>start\<close> of the heap, \<open>new Range( start )\<close> is a collapsed
  range whose start and end both equal the position; its boundaries are two new position
  objects, so that no change of a position object that existed before the call, the
  argument among them, changes the boundaries of the range.
\<close>

theorem new_Range_collapsed_fresh_copies:
  assumes "start < length heap"
  shows "(case new_Range_object heap start None of
       (r, heap') \<Rightarrow>
         Range_read heap' r = new_Range (heap ! start) None \<and>
         range_start (Range_read heap' r) = heap ! start \<and>
         range_end (Range_read heap' r) = heap ! start \<and>
         Range_isCollapsed (Range_read heap' r) \<and>
         start_ref r \<noteq> end_ref r \<and>
         (\<forall>ref v. ref < length heap \<longrightarrow>
            Range_read (heap'[ref := v]) r = Range_read heap' r))"
  using assms
  by (simp add: new_Range_object_def Position_createFromPosition_object_def Range_read_def
      new_Range_def Range_isCollapsed_def Position_isEqual_def Position_compareWith_def
      comparePaths_refl Position_createFromPosition_id nth_append nth_list_update)


theorem new_Range_collapsed_fresh_copies_witness:
  "(0::nat) < length [new_Position ''main'' [1, 2]] \<and>
   Range_read (snd (new_Range_object [new_Position ''main'' [1, 2]] 0 None))
     (fst (new_Range_object [new_Position ''main'' [1, 2]] 0 None))
   = new_Range (new_Position ''main'' [1, 2]) None \<and>
   Range_read ((snd (new_Range_object [new_Position ''main'' [1, 2]] 0 None))
                 [0 := new_Position ''main'' [9]])
     (fst (new_Range_object [new_Position ''main'' [1, 2]] 0 None))
   = new_Range (new_Position ''main'' [1, 2]) None"
proof -
  have less: "(0::nat) < length [new_Position ''main'' [1, 2]]"
    by simp
  from new_Range_collapsed_fresh_copies [OF less]
  have 1: "Range_read (snd (new_Range_object [new_Position ''main'' [1, 2]] 0 None))
     (fst (new_Range_object [new_Position ''main'' [1, 2]] 0 None))
     = new_Range ([new_Position ''main'' [1, 2]] ! 0) None"
    and 2: "\<forall>ref v. ref < length [new_Position ''main'' [1, 2]] \<longrightarrow>
       Range_read ((snd (new_Range_object [new_Position ''main'' [1, 2]] 0 None))[ref := v])
         (fst (new_Range_object [new_Position ''main'' [1, 2]] 0 None))
       = Range_read (snd (new_Range_object [new_Position ''main'' [1, 2]] 0 None))
         (fst (new_Range_object [new_Position ''main'' [1, 2]] 0 None))"
    by (simp_all add: case_prod_beta)
  from 2 less have 3:
    "Range_read ((snd (new_Range_object [new_Position ''main'' [1, 2]] 0 None))
        [0 := new_Position ''main'' [9]])
       (fst (new_Range_object [new_Position ''main'' [1, 2]] 0 None))
     = Range_read (snd (new_Range_object [new_Position ''main'' [1, 2]] 0 None))
         (fst (new_Range_object [new_Position ''main'' [1, 2]] 0 None))"
    by blast
  from less 1 3 show ?thesis by simp
qed

end
